theory Spec2Isabelle
  imports Main
begin

section \<open>Raw parse trees\<close>

text \<open>
  A parse tree is built from \<^verbatim>\<open>Node\<close> structs: every struct starts with its tag
  (\<^verbatim>\<open>nodeTag(n)\<close>) and the code reaches its members by casting to the struct type the
  tag names. The struct declarations and the enum of tags are vendored headers
  (\<^verbatim>\<open>nodes/parsenodes.h\<close>, \<^verbatim>\<open>nodes/primnodes.h\<close>, \<^verbatim>\<open>nodes/nodetags.h\<close>), so the
  model keeps what the two functions of \<^verbatim>\<open>nodeFuncs.c\<close> read of a struct: its tag,
  its \<^verbatim>\<open>location\<close> member and its pointer members, by member name. A pointer is a
  \<open>node option\<close>, \<open>None\<close> being \<^verbatim>\<open>NULL\<close>; a member that is not listed is \<^verbatim>\<open>NULL\<close>.
  A \<^verbatim>\<open>List\<close> is the sequence of its cells, each a pointer.

  The tags are the constants of \<^verbatim>\<open>enum NodeTag\<close>. Their numbers are in
  \<^verbatim>\<open>nodetags.h\<close>; here the tags that \<^verbatim>\<open>nodeFuncs.c\<close> names are numbered from 1 in
  the order in which \<^verbatim>\<open>exprLocation\<close> and then the raw walker first name them, and
  nothing below depends on a tag but through equality. Any other number stands for
  a tag that \<^verbatim>\<open>nodeFuncs.c\<close> does not name, such as those of the DDL statements.
\<close>

type_synonym NodeTag = nat

datatype node =
    Node NodeTag int "(string \<times> node option) list"
  | List "node option list"

named_theorems tag_defs

definition T_RangeVar :: NodeTag where [tag_defs]: "T_RangeVar = 1"
definition T_TableFunc :: NodeTag where [tag_defs]: "T_TableFunc = 2"
definition T_Var :: NodeTag where [tag_defs]: "T_Var = 3"
definition T_Const :: NodeTag where [tag_defs]: "T_Const = 4"
definition T_Param :: NodeTag where [tag_defs]: "T_Param = 5"
definition T_Aggref :: NodeTag where [tag_defs]: "T_Aggref = 6"
definition T_GroupingFunc :: NodeTag where [tag_defs]: "T_GroupingFunc = 7"
definition T_WindowFunc :: NodeTag where [tag_defs]: "T_WindowFunc = 8"
definition T_SubscriptingRef :: NodeTag where [tag_defs]: "T_SubscriptingRef = 9"
definition T_FuncExpr :: NodeTag where [tag_defs]: "T_FuncExpr = 10"
definition T_NamedArgExpr :: NodeTag where [tag_defs]: "T_NamedArgExpr = 11"
definition T_OpExpr :: NodeTag where [tag_defs]: "T_OpExpr = 12"
definition T_DistinctExpr :: NodeTag where [tag_defs]: "T_DistinctExpr = 13"
definition T_NullIfExpr :: NodeTag where [tag_defs]: "T_NullIfExpr = 14"
definition T_ScalarArrayOpExpr :: NodeTag where [tag_defs]: "T_ScalarArrayOpExpr = 15"
definition T_BoolExpr :: NodeTag where [tag_defs]: "T_BoolExpr = 16"
definition T_SubLink :: NodeTag where [tag_defs]: "T_SubLink = 17"
definition T_FieldSelect :: NodeTag where [tag_defs]: "T_FieldSelect = 18"
definition T_FieldStore :: NodeTag where [tag_defs]: "T_FieldStore = 19"
definition T_RelabelType :: NodeTag where [tag_defs]: "T_RelabelType = 20"
definition T_CoerceViaIO :: NodeTag where [tag_defs]: "T_CoerceViaIO = 21"
definition T_ArrayCoerceExpr :: NodeTag where [tag_defs]: "T_ArrayCoerceExpr = 22"
definition T_ConvertRowtypeExpr :: NodeTag where [tag_defs]: "T_ConvertRowtypeExpr = 23"
definition T_CollateExpr :: NodeTag where [tag_defs]: "T_CollateExpr = 24"
definition T_CaseExpr :: NodeTag where [tag_defs]: "T_CaseExpr = 25"
definition T_CaseWhen :: NodeTag where [tag_defs]: "T_CaseWhen = 26"
definition T_ArrayExpr :: NodeTag where [tag_defs]: "T_ArrayExpr = 27"
definition T_RowExpr :: NodeTag where [tag_defs]: "T_RowExpr = 28"
definition T_RowCompareExpr :: NodeTag where [tag_defs]: "T_RowCompareExpr = 29"
definition T_CoalesceExpr :: NodeTag where [tag_defs]: "T_CoalesceExpr = 30"
definition T_MinMaxExpr :: NodeTag where [tag_defs]: "T_MinMaxExpr = 31"
definition T_SQLValueFunction :: NodeTag where [tag_defs]: "T_SQLValueFunction = 32"
definition T_XmlExpr :: NodeTag where [tag_defs]: "T_XmlExpr = 33"
definition T_JsonFormat :: NodeTag where [tag_defs]: "T_JsonFormat = 34"
definition T_JsonValueExpr :: NodeTag where [tag_defs]: "T_JsonValueExpr = 35"
definition T_JsonConstructorExpr :: NodeTag where [tag_defs]: "T_JsonConstructorExpr = 36"
definition T_JsonIsPredicate :: NodeTag where [tag_defs]: "T_JsonIsPredicate = 37"
definition T_NullTest :: NodeTag where [tag_defs]: "T_NullTest = 38"
definition T_BooleanTest :: NodeTag where [tag_defs]: "T_BooleanTest = 39"
definition T_CoerceToDomain :: NodeTag where [tag_defs]: "T_CoerceToDomain = 40"
definition T_CoerceToDomainValue :: NodeTag where [tag_defs]: "T_CoerceToDomainValue = 41"
definition T_SetToDefault :: NodeTag where [tag_defs]: "T_SetToDefault = 42"
definition T_TargetEntry :: NodeTag where [tag_defs]: "T_TargetEntry = 43"
definition T_IntoClause :: NodeTag where [tag_defs]: "T_IntoClause = 44"
definition T_List :: NodeTag where [tag_defs]: "T_List = 45"
definition T_A_Expr :: NodeTag where [tag_defs]: "T_A_Expr = 46"
definition T_ColumnRef :: NodeTag where [tag_defs]: "T_ColumnRef = 47"
definition T_ParamRef :: NodeTag where [tag_defs]: "T_ParamRef = 48"
definition T_A_Const :: NodeTag where [tag_defs]: "T_A_Const = 49"
definition T_FuncCall :: NodeTag where [tag_defs]: "T_FuncCall = 50"
definition T_A_ArrayExpr :: NodeTag where [tag_defs]: "T_A_ArrayExpr = 51"
definition T_ResTarget :: NodeTag where [tag_defs]: "T_ResTarget = 52"
definition T_MultiAssignRef :: NodeTag where [tag_defs]: "T_MultiAssignRef = 53"
definition T_TypeCast :: NodeTag where [tag_defs]: "T_TypeCast = 54"
definition T_CollateClause :: NodeTag where [tag_defs]: "T_CollateClause = 55"
definition T_SortBy :: NodeTag where [tag_defs]: "T_SortBy = 56"
definition T_WindowDef :: NodeTag where [tag_defs]: "T_WindowDef = 57"
definition T_RangeTableSample :: NodeTag where [tag_defs]: "T_RangeTableSample = 58"
definition T_TypeName :: NodeTag where [tag_defs]: "T_TypeName = 59"
definition T_ColumnDef :: NodeTag where [tag_defs]: "T_ColumnDef = 60"
definition T_Constraint :: NodeTag where [tag_defs]: "T_Constraint = 61"
definition T_FunctionParameter :: NodeTag where [tag_defs]: "T_FunctionParameter = 62"
definition T_XmlSerialize :: NodeTag where [tag_defs]: "T_XmlSerialize = 63"
definition T_GroupingSet :: NodeTag where [tag_defs]: "T_GroupingSet = 64"
definition T_WithClause :: NodeTag where [tag_defs]: "T_WithClause = 65"
definition T_InferClause :: NodeTag where [tag_defs]: "T_InferClause = 66"
definition T_OnConflictClause :: NodeTag where [tag_defs]: "T_OnConflictClause = 67"
definition T_CTESearchClause :: NodeTag where [tag_defs]: "T_CTESearchClause = 68"
definition T_CTECycleClause :: NodeTag where [tag_defs]: "T_CTECycleClause = 69"
definition T_CommonTableExpr :: NodeTag where [tag_defs]: "T_CommonTableExpr = 70"
definition T_JsonKeyValue :: NodeTag where [tag_defs]: "T_JsonKeyValue = 71"
definition T_JsonObjectConstructor :: NodeTag where [tag_defs]: "T_JsonObjectConstructor = 72"
definition T_JsonArrayConstructor :: NodeTag where [tag_defs]: "T_JsonArrayConstructor = 73"
definition T_JsonArrayQueryConstructor :: NodeTag where [tag_defs]: "T_JsonArrayQueryConstructor = 74"
definition T_JsonAggConstructor :: NodeTag where [tag_defs]: "T_JsonAggConstructor = 75"
definition T_JsonObjectAgg :: NodeTag where [tag_defs]: "T_JsonObjectAgg = 76"
definition T_JsonArrayAgg :: NodeTag where [tag_defs]: "T_JsonArrayAgg = 77"
definition T_PlaceHolderVar :: NodeTag where [tag_defs]: "T_PlaceHolderVar = 78"
definition T_InferenceElem :: NodeTag where [tag_defs]: "T_InferenceElem = 79"
definition T_PartitionElem :: NodeTag where [tag_defs]: "T_PartitionElem = 80"
definition T_PartitionSpec :: NodeTag where [tag_defs]: "T_PartitionSpec = 81"
definition T_PartitionBoundSpec :: NodeTag where [tag_defs]: "T_PartitionBoundSpec = 82"
definition T_PartitionRangeDatum :: NodeTag where [tag_defs]: "T_PartitionRangeDatum = 83"
definition T_CurrentOfExpr :: NodeTag where [tag_defs]: "T_CurrentOfExpr = 84"
definition T_Integer :: NodeTag where [tag_defs]: "T_Integer = 85"
definition T_Float :: NodeTag where [tag_defs]: "T_Float = 86"
definition T_Boolean :: NodeTag where [tag_defs]: "T_Boolean = 87"
definition T_String :: NodeTag where [tag_defs]: "T_String = 88"
definition T_BitString :: NodeTag where [tag_defs]: "T_BitString = 89"
definition T_A_Star :: NodeTag where [tag_defs]: "T_A_Star = 90"
definition T_Alias :: NodeTag where [tag_defs]: "T_Alias = 91"
definition T_JsonReturning :: NodeTag where [tag_defs]: "T_JsonReturning = 92"
definition T_JoinExpr :: NodeTag where [tag_defs]: "T_JoinExpr = 93"
definition T_InsertStmt :: NodeTag where [tag_defs]: "T_InsertStmt = 94"
definition T_DeleteStmt :: NodeTag where [tag_defs]: "T_DeleteStmt = 95"
definition T_UpdateStmt :: NodeTag where [tag_defs]: "T_UpdateStmt = 96"
definition T_MergeStmt :: NodeTag where [tag_defs]: "T_MergeStmt = 97"
definition T_MergeWhenClause :: NodeTag where [tag_defs]: "T_MergeWhenClause = 98"
definition T_SelectStmt :: NodeTag where [tag_defs]: "T_SelectStmt = 99"
definition T_PLAssignStmt :: NodeTag where [tag_defs]: "T_PLAssignStmt = 100"
definition T_A_Indices :: NodeTag where [tag_defs]: "T_A_Indices = 101"
definition T_A_Indirection :: NodeTag where [tag_defs]: "T_A_Indirection = 102"
definition T_RangeSubselect :: NodeTag where [tag_defs]: "T_RangeSubselect = 103"
definition T_RangeFunction :: NodeTag where [tag_defs]: "T_RangeFunction = 104"
definition T_RangeTableFunc :: NodeTag where [tag_defs]: "T_RangeTableFunc = 105"
definition T_RangeTableFuncCol :: NodeTag where [tag_defs]: "T_RangeTableFuncCol = 106"
definition T_IndexElem :: NodeTag where [tag_defs]: "T_IndexElem = 107"
definition T_LockingClause :: NodeTag where [tag_defs]: "T_LockingClause = 108"
definition T_JsonOutput :: NodeTag where [tag_defs]: "T_JsonOutput = 109"

fun nodeTag :: "node \<Rightarrow> NodeTag" where
  "nodeTag (Node tag loc ptrs) = tag"
| "nodeTag (List cells) = T_List"

text \<open>
  \<^verbatim>\<open>((const K *) expr)->location\<close>. A \<^verbatim>\<open>List\<close> has no such member, and no branch below
  reads it of one.
\<close>

fun location :: "node \<Rightarrow> int" where
  "location (Node tag loc ptrs) = loc"
| "location (List cells) = -1"

text \<open>\<^verbatim>\<open>((K *) node)->f\<close> for a pointer member \<open>f\<close>.\<close>

fun ptr :: "node \<Rightarrow> string \<Rightarrow> node option" where
  "ptr (Node tag loc ptrs) f = (case map_of ptrs f of Some p \<Rightarrow> p | None \<Rightarrow> None)"
| "ptr (List cells) f = None"

text \<open>The cells \<^verbatim>\<open>foreach\<close> runs over; a struct that is not a \<^verbatim>\<open>List\<close> has none.\<close>

fun list_cells :: "node \<Rightarrow> node option list" where
  "list_cells (List cells) = cells"
| "list_cells (Node tag loc ptrs) = []"

text \<open>
  What can stop a call short of its \<^verbatim>\<open>return\<close>: the stack guard, an
  \<^verbatim>\<open>ereport(ERROR)\<close> of the callback or of the diagnostic channel, and the
  dereference of a pointer that is \<^verbatim>\<open>NULL\<close> or points to a node of another kind
  than the member's declared type (undefined behaviour in C, a failure here).
\<close>

datatype error = StackDepthExceeded | BadPointer | ErrorRaised string

section \<open>exprLocation\<close>

text \<open>Locations are C \<^verbatim>\<open>int\<close>s; they are only compared, so \<open>int\<close> models them.\<close>

definition leftmostLoc :: "int \<Rightarrow> int \<Rightarrow> int" where
  "leftmostLoc loc1 loc2 =
     (if loc1 < 0 then loc2
      else if loc2 < 0 then loc1
      else min loc1 loc2)"

text \<open>
  The \<^verbatim>\<open>switch\<close> of \<^verbatim>\<open>exprLocation\<close>, one branch per \<^verbatim>\<open>case\<close> label in the order
  of the source. \<open>exprLocation_foreach cells loc\<close> is the loop of \<^verbatim>\<open>case T_List\<close>
  with the current value of \<^verbatim>\<open>loc\<close>. \<^verbatim>\<open>case T_TypeCast\<close> reads
  \<^verbatim>\<open>tc->typeName->location\<close> without a test, after \<^verbatim>\<open>exprLocation(tc->arg)\<close>.
\<close>

function exprLocation :: "node option \<Rightarrow> error + int"
  and exprLocation_foreach :: "node option list \<Rightarrow> int \<Rightarrow> error + int" where
  "exprLocation None = Inr (-1)"
| "exprLocation (Some expr) =
     (if nodeTag expr = T_RangeVar then Inr (location expr)
      else if nodeTag expr = T_TableFunc then Inr (location expr)
      else if nodeTag expr = T_Var then Inr (location expr)
      else if nodeTag expr = T_Const then Inr (location expr)
      else if nodeTag expr = T_Param then Inr (location expr)
      else if nodeTag expr = T_Aggref then Inr (location expr)
      else if nodeTag expr = T_GroupingFunc then Inr (location expr)
      else if nodeTag expr = T_WindowFunc then Inr (location expr)
      else if nodeTag expr = T_SubscriptingRef then exprLocation (ptr expr ''refexpr'')
      else if nodeTag expr = T_FuncExpr then
        map_sum id (leftmostLoc (location expr)) (exprLocation (ptr expr ''args''))
      else if nodeTag expr = T_NamedArgExpr then
        map_sum id (leftmostLoc (location expr)) (exprLocation (ptr expr ''arg''))
      else if nodeTag expr = T_OpExpr \<or> nodeTag expr = T_DistinctExpr \<or> nodeTag expr = T_NullIfExpr then
        map_sum id (leftmostLoc (location expr)) (exprLocation (ptr expr ''args''))
      else if nodeTag expr = T_ScalarArrayOpExpr then
        map_sum id (leftmostLoc (location expr)) (exprLocation (ptr expr ''args''))
      else if nodeTag expr = T_BoolExpr then
        map_sum id (leftmostLoc (location expr)) (exprLocation (ptr expr ''args''))
      else if nodeTag expr = T_SubLink then
        map_sum id (\<lambda>loc. leftmostLoc loc (location expr)) (exprLocation (ptr expr ''testexpr''))
      else if nodeTag expr = T_FieldSelect then exprLocation (ptr expr ''arg'')
      else if nodeTag expr = T_FieldStore then exprLocation (ptr expr ''arg'')
      else if nodeTag expr = T_RelabelType then
        map_sum id (leftmostLoc (location expr)) (exprLocation (ptr expr ''arg''))
      else if nodeTag expr = T_CoerceViaIO then
        map_sum id (leftmostLoc (location expr)) (exprLocation (ptr expr ''arg''))
      else if nodeTag expr = T_ArrayCoerceExpr then
        map_sum id (leftmostLoc (location expr)) (exprLocation (ptr expr ''arg''))
      else if nodeTag expr = T_ConvertRowtypeExpr then
        map_sum id (leftmostLoc (location expr)) (exprLocation (ptr expr ''arg''))
      else if nodeTag expr = T_CollateExpr then exprLocation (ptr expr ''arg'')
      else if nodeTag expr = T_CaseExpr then Inr (location expr)
      else if nodeTag expr = T_CaseWhen then Inr (location expr)
      else if nodeTag expr = T_ArrayExpr then Inr (location expr)
      else if nodeTag expr = T_RowExpr then Inr (location expr)
      else if nodeTag expr = T_RowCompareExpr then exprLocation (ptr expr ''largs'')
      else if nodeTag expr = T_CoalesceExpr then Inr (location expr)
      else if nodeTag expr = T_MinMaxExpr then Inr (location expr)
      else if nodeTag expr = T_SQLValueFunction then Inr (location expr)
      else if nodeTag expr = T_XmlExpr then
        map_sum id (leftmostLoc (location expr)) (exprLocation (ptr expr ''args''))
      else if nodeTag expr = T_JsonFormat then Inr (location expr)
      else if nodeTag expr = T_JsonValueExpr then exprLocation (ptr expr ''raw_expr'')
      else if nodeTag expr = T_JsonConstructorExpr then Inr (location expr)
      else if nodeTag expr = T_JsonIsPredicate then Inr (location expr)
      else if nodeTag expr = T_NullTest then
        map_sum id (leftmostLoc (location expr)) (exprLocation (ptr expr ''arg''))
      else if nodeTag expr = T_BooleanTest then
        map_sum id (leftmostLoc (location expr)) (exprLocation (ptr expr ''arg''))
      else if nodeTag expr = T_CoerceToDomain then
        map_sum id (leftmostLoc (location expr)) (exprLocation (ptr expr ''arg''))
      else if nodeTag expr = T_CoerceToDomainValue then Inr (location expr)
      else if nodeTag expr = T_SetToDefault then Inr (location expr)
      else if nodeTag expr = T_TargetEntry then exprLocation (ptr expr ''expr'')
      else if nodeTag expr = T_IntoClause then exprLocation (ptr expr ''rel'')
      else if nodeTag expr = T_List then exprLocation_foreach (list_cells expr) (-1)
      else if nodeTag expr = T_A_Expr then
        map_sum id (leftmostLoc (location expr)) (exprLocation (ptr expr ''lexpr''))
      else if nodeTag expr = T_ColumnRef then Inr (location expr)
      else if nodeTag expr = T_ParamRef then Inr (location expr)
      else if nodeTag expr = T_A_Const then Inr (location expr)
      else if nodeTag expr = T_FuncCall then
        map_sum id (leftmostLoc (location expr)) (exprLocation (ptr expr ''args''))
      else if nodeTag expr = T_A_ArrayExpr then Inr (location expr)
      else if nodeTag expr = T_ResTarget then Inr (location expr)
      else if nodeTag expr = T_MultiAssignRef then exprLocation (ptr expr ''source'')
      else if nodeTag expr = T_TypeCast then
        (case exprLocation (ptr expr ''arg'') of
           Inl e \<Rightarrow> Inl e
         | Inr loc \<Rightarrow>
             (case ptr expr ''typeName'' of
                None \<Rightarrow> Inl BadPointer
              | Some typeName \<Rightarrow>
                  if nodeTag typeName = T_TypeName
                  then Inr (leftmostLoc (leftmostLoc loc (location typeName)) (location expr))
                  else Inl BadPointer))
      else if nodeTag expr = T_CollateClause then exprLocation (ptr expr ''arg'')
      else if nodeTag expr = T_SortBy then exprLocation (ptr expr ''node'')
      else if nodeTag expr = T_WindowDef then Inr (location expr)
      else if nodeTag expr = T_RangeTableSample then Inr (location expr)
      else if nodeTag expr = T_TypeName then Inr (location expr)
      else if nodeTag expr = T_ColumnDef then Inr (location expr)
      else if nodeTag expr = T_Constraint then Inr (location expr)
      else if nodeTag expr = T_FunctionParameter then exprLocation (ptr expr ''argType'')
      else if nodeTag expr = T_XmlSerialize then Inr (location expr)
      else if nodeTag expr = T_GroupingSet then Inr (location expr)
      else if nodeTag expr = T_WithClause then Inr (location expr)
      else if nodeTag expr = T_InferClause then Inr (location expr)
      else if nodeTag expr = T_OnConflictClause then Inr (location expr)
      else if nodeTag expr = T_CTESearchClause then Inr (location expr)
      else if nodeTag expr = T_CTECycleClause then Inr (location expr)
      else if nodeTag expr = T_CommonTableExpr then Inr (location expr)
      else if nodeTag expr = T_JsonKeyValue then exprLocation (ptr expr ''key'')
      else if nodeTag expr = T_JsonObjectConstructor then Inr (location expr)
      else if nodeTag expr = T_JsonArrayConstructor then Inr (location expr)
      else if nodeTag expr = T_JsonArrayQueryConstructor then Inr (location expr)
      else if nodeTag expr = T_JsonAggConstructor then Inr (location expr)
      else if nodeTag expr = T_JsonObjectAgg then exprLocation (ptr expr ''constructor'')
      else if nodeTag expr = T_JsonArrayAgg then exprLocation (ptr expr ''constructor'')
      else if nodeTag expr = T_PlaceHolderVar then exprLocation (ptr expr ''phexpr'')
      else if nodeTag expr = T_InferenceElem then exprLocation (ptr expr ''expr'')
      else if nodeTag expr = T_PartitionElem then Inr (location expr)
      else if nodeTag expr = T_PartitionSpec then Inr (location expr)
      else if nodeTag expr = T_PartitionBoundSpec then Inr (location expr)
      else if nodeTag expr = T_PartitionRangeDatum then Inr (location expr)
      else Inr (-1))"
| "exprLocation_foreach [] loc = Inr loc"
| "exprLocation_foreach (lc # rest) loc =
     (case exprLocation lc of
        Inl e \<Rightarrow> Inl e
      | Inr loc' \<Rightarrow> if loc' \<ge> 0 then Inr loc' else exprLocation_foreach rest loc')"
  by pat_completeness auto

lemma size_map_of:
  "map_of ptrs f = Some p \<Longrightarrow>
   size_option size p \<le> size_list (size_prod (\<lambda>x. 0) (size_option size)) ptrs"
  by (induction ptrs) (auto split: if_splits)

lemma size_ptr: "size_option size (ptr n f) \<le> size n"
  by (cases n) (auto split: option.splits dest: size_map_of)

lemma size_list_cells: "size_list (size_option size) (list_cells n) < size n"
  by (cases n) auto

lemma ptr_measure: "2 * size_option size (ptr expr f) < Suc (Suc (2 * size expr))"
  using size_ptr [of expr f] by simp

lemma cells_measure:
  "2 * size_list (size_option size) (list_cells expr) < Suc (Suc (Suc (2 * size expr)))"
  using size_list_cells [of expr] by simp

termination exprLocation
  apply (relation "measure (\<lambda>x. case x of
            Inl expr \<Rightarrow> 2 * size_option size expr + 1
          | Inr (cells, loc) \<Rightarrow> 2 * size_list (size_option size) cells)")
  apply (auto simp: ptr_measure cells_measure)
  done

declare exprLocation.simps(2) [simp del]

text \<open>
  The kinds whose \<^verbatim>\<open>case\<close> in \<^verbatim>\<open>exprLocation\<close> is
  \<^verbatim>\<open>loc = ((const K *) expr)->location; break;\<close> and nothing else.
\<close>

definition location_verbatim_tags :: "NodeTag list" where
  "location_verbatim_tags =
    [T_RangeVar, T_TableFunc, T_Var, T_Const, T_Param, T_Aggref, T_GroupingFunc,
     T_WindowFunc, T_CaseExpr, T_CaseWhen, T_ArrayExpr, T_RowExpr, T_CoalesceExpr,
     T_MinMaxExpr, T_SQLValueFunction, T_JsonFormat, T_JsonConstructorExpr,
     T_JsonIsPredicate, T_CoerceToDomainValue, T_SetToDefault, T_ColumnRef, T_ParamRef,
     T_A_Const, T_A_ArrayExpr, T_ResTarget, T_WindowDef, T_RangeTableSample, T_TypeName,
     T_ColumnDef, T_Constraint, T_XmlSerialize, T_GroupingSet, T_WithClause,
     T_InferClause, T_OnConflictClause, T_CTESearchClause, T_CTECycleClause,
     T_CommonTableExpr, T_JsonObjectConstructor, T_JsonArrayConstructor,
     T_JsonArrayQueryConstructor, T_JsonAggConstructor, T_PartitionElem, T_PartitionSpec,
     T_PartitionBoundSpec, T_PartitionRangeDatum]"

section \<open>The raw expression tree walker\<close>

text \<open>
  The walker and its callback work on the world outside the tree: the object that
  \<^verbatim>\<open>void *context\<close> points to, which only the callback reads and writes, and the
  output of the diagnostic channel.
\<close>

datatype elevel = NOTICE | ERROR

record 'c world =
  ctx :: 'c
  elog_out :: "(elevel \<times> string \<times> NodeTag) list"

type_synonym 'c action = "'c world \<Rightarrow> (error + bool) \<times> 'c world"

type_synonym 'c tree_walker_callback = "node option \<Rightarrow> 'c world \<Rightarrow> (error + bool) \<times> 'c world"

text \<open>
  Modelled from the spec: \<^verbatim>\<open>elog\<close> is the vendored diagnostic channel, not under
  \<^verbatim>\<open>src/\<close>. A notice-level diagnostic is logged and the caller continues; at the
  severity \<^verbatim>\<open>ERROR\<close>, the vendored default of the walker's call site, the call does
  not return to its caller. The argument of the format is the tag.
\<close>

definition elog :: "elevel \<Rightarrow> string \<Rightarrow> NodeTag \<Rightarrow> 'c world \<Rightarrow> (error + unit) \<times> 'c world" where
  "elog elevel fmt arg w =
     (case elevel of
        NOTICE \<Rightarrow> (Inr (), w\<lparr>elog_out := elog_out w @ [(NOTICE, fmt, arg)]\<rparr>)
      | ERROR \<Rightarrow> (Inl (ErrorRaised fmt), w\<lparr>elog_out := elog_out w @ [(ERROR, fmt, arg)]\<rparr>))"

text \<open>
  Modelled from the spec: \<^verbatim>\<open>check_stack_depth\<close> is vendored, not under \<^verbatim>\<open>src/\<close>;
  it fails with a stack-depth error if nesting would exceed a safe call budget.
  \<open>stack_ok\<close> says whether the call at hand is within the budget.
\<close>

definition check_stack_depth :: "bool \<Rightarrow> 'c world \<Rightarrow> (error + unit) \<times> 'c world" where
  "check_stack_depth stack_ok w = (if stack_ok then (Inr (), w) else (Inl StackDepthExceeded, w))"

text \<open>\<^verbatim>\<open>#define WALK(n) walker((Node *) (n), context)\<close>\<close>

definition WALK :: "'c tree_walker_callback \<Rightarrow> node option \<Rightarrow> 'c action" where
  "WALK walker n = walker n"

text \<open>\<^verbatim>\<open>break\<close> out of the \<^verbatim>\<open>switch\<close>, to the \<^verbatim>\<open>return false\<close> that ends the function.\<close>

definition return_false :: "'c action" where
  "return_false w = (Inr False, w)"

definition fail :: "error \<Rightarrow> 'c action" where
  "fail e w = (Inl e, w)"

text \<open>
  \<^verbatim>\<open>if (WALK(n)) return true;\<close> for each \<open>n\<close> of the list in turn, and then \<open>rest\<close>. A
  callback that does not return (\<open>Inl\<close>) ends the walk as well.
\<close>

fun WALK_then :: "'c tree_walker_callback \<Rightarrow> node option list \<Rightarrow> 'c action \<Rightarrow> 'c action" where
  "WALK_then walker [] rest w = rest w"
| "WALK_then walker (n # ns) rest w =
     (case WALK walker n w of
        (Inr False, w') \<Rightarrow> WALK_then walker ns rest w'
      | (r, w') \<Rightarrow> (r, w'))"

text \<open>The same followed by \<^verbatim>\<open>break\<close>: the body of most \<^verbatim>\<open>case\<close>s.\<close>

definition WALK_each :: "'c tree_walker_callback \<Rightarrow> node option list \<Rightarrow> 'c action" where
  "WALK_each walker ns = WALK_then walker ns return_false"

text \<open>
  The cells of a member declared \<^verbatim>\<open>List *\<close>, for \<^verbatim>\<open>foreach\<close>: \<^verbatim>\<open>NIL\<close> is the \<^verbatim>\<open>NULL\<close>
  pointer; a pointer to a node that is not a \<^verbatim>\<open>List\<close> is no \<^verbatim>\<open>List *\<close>.
\<close>

definition List_cells :: "node option \<Rightarrow> node option list option" where
  "List_cells l =
     (case l of
        None \<Rightarrow> Some []
      | Some n \<Rightarrow> if nodeTag n = T_List then Some (list_cells n) else None)"

text \<open>
  The loop of \<^verbatim>\<open>case T_CaseExpr\<close>: \<^verbatim>\<open>lfirst_node(CaseWhen, temp)\<close> casts the cell
  (\<^verbatim>\<open>castNode\<close>), then \<^verbatim>\<open>when->expr\<close> and \<^verbatim>\<open>when->result\<close> are walked; the
  \<^verbatim>\<open>CaseWhen\<close> itself is not passed to the callback.
\<close>

fun foreach_CaseWhen :: "'c tree_walker_callback \<Rightarrow> node option list \<Rightarrow> 'c action \<Rightarrow> 'c action" where
  "foreach_CaseWhen walker [] rest = rest"
| "foreach_CaseWhen walker (temp # temps) rest =
     (case temp of
        None \<Rightarrow> fail BadPointer
      | Some when \<Rightarrow>
          if nodeTag when = T_CaseWhen
          then WALK_then walker [ptr when ''expr'', ptr when ''result'']
                 (foreach_CaseWhen walker temps rest)
          else fail BadPointer)"

text \<open>
  The \<^verbatim>\<open>switch\<close> of \<^verbatim>\<open>raw_expression_tree_walker_impl\<close> with the \<^verbatim>\<open>return false\<close>
  after it, one branch per group of \<^verbatim>\<open>case\<close> labels in the order of the source:
  \<^verbatim>\<open>return WALK(x)\<close> is \<open>WALK walker x\<close>, and a chain of
  \<^verbatim>\<open>if (WALK(x)) return true;\<close> closed by \<^verbatim>\<open>break\<close> is \<open>WALK_each\<close>. The members
  that the source's comments leave out (column names, operator and function names,
  the \<^verbatim>\<open>fields\<close> of a \<^verbatim>\<open>ColumnRef\<close>, the search and cycle clauses of a
  \<^verbatim>\<open>CommonTableExpr\<close>, ...) are not read.
\<close>

definition raw_expression_tree_walker_switch :: "node \<Rightarrow> 'c tree_walker_callback \<Rightarrow> 'c action" where
  "raw_expression_tree_walker_switch node walker =
     (if nodeTag node = T_JsonFormat \<or> nodeTag node = T_SetToDefault \<or> nodeTag node = T_CurrentOfExpr
              \<or> nodeTag node = T_SQLValueFunction \<or> nodeTag node = T_Integer \<or> nodeTag node = T_Float
              \<or> nodeTag node = T_Boolean \<or> nodeTag node = T_String \<or> nodeTag node = T_BitString
              \<or> nodeTag node = T_ParamRef \<or> nodeTag node = T_A_Const \<or> nodeTag node = T_A_Star
      then return_false
      else if nodeTag node = T_Alias then return_false
      else if nodeTag node = T_RangeVar then WALK walker (ptr node ''alias'')
      else if nodeTag node = T_GroupingFunc then WALK walker (ptr node ''args'')
      else if nodeTag node = T_SubLink then
        WALK_each walker [ptr node ''testexpr'', ptr node ''subselect'']
      else if nodeTag node = T_CaseExpr then
        WALK_then walker [ptr node ''arg'']
          (case List_cells (ptr node ''args'') of
             None \<Rightarrow> fail BadPointer
           | Some cells \<Rightarrow>
               foreach_CaseWhen walker cells (WALK_each walker [ptr node ''defresult'']))
      else if nodeTag node = T_RowExpr then WALK walker (ptr node ''args'')
      else if nodeTag node = T_CoalesceExpr then WALK walker (ptr node ''args'')
      else if nodeTag node = T_MinMaxExpr then WALK walker (ptr node ''args'')
      else if nodeTag node = T_XmlExpr then
        WALK_each walker [ptr node ''named_args'', ptr node ''args'']
      else if nodeTag node = T_JsonReturning then WALK walker (ptr node ''format'')
      else if nodeTag node = T_JsonValueExpr then
        WALK_each walker
          [ptr node ''raw_expr'', ptr node ''formatted_expr'', ptr node ''format'']
      else if nodeTag node = T_JsonConstructorExpr then
        WALK_each walker
          [ptr node ''args'', ptr node ''func'', ptr node ''coercion'',
           ptr node ''returning'']
      else if nodeTag node = T_JsonIsPredicate then WALK walker (ptr node ''expr'')
      else if nodeTag node = T_NullTest then WALK walker (ptr node ''arg'')
      else if nodeTag node = T_BooleanTest then WALK walker (ptr node ''arg'')
      else if nodeTag node = T_JoinExpr then
        WALK_each walker
          [ptr node ''larg'', ptr node ''rarg'', ptr node ''quals'', ptr node ''alias'']
      else if nodeTag node = T_IntoClause then
        WALK_each walker [ptr node ''rel'', ptr node ''viewQuery'']
      else if nodeTag node = T_List then WALK_each walker (list_cells node)
      else if nodeTag node = T_InsertStmt then
        WALK_each walker
          [ptr node ''relation'', ptr node ''cols'', ptr node ''selectStmt'',
           ptr node ''onConflictClause'', ptr node ''returningList'',
           ptr node ''withClause'']
      else if nodeTag node = T_DeleteStmt then
        WALK_each walker
          [ptr node ''relation'', ptr node ''usingClause'', ptr node ''whereClause'',
           ptr node ''returningList'', ptr node ''withClause'']
      else if nodeTag node = T_UpdateStmt then
        WALK_each walker
          [ptr node ''relation'', ptr node ''targetList'', ptr node ''whereClause'',
           ptr node ''fromClause'', ptr node ''returningList'', ptr node ''withClause'']
      else if nodeTag node = T_MergeStmt then
        WALK_each walker
          [ptr node ''relation'', ptr node ''sourceRelation'', ptr node ''joinCondition'',
           ptr node ''mergeWhenClauses'', ptr node ''withClause'']
      else if nodeTag node = T_MergeWhenClause then
        WALK_each walker
          [ptr node ''condition'', ptr node ''targetList'', ptr node ''values'']
      else if nodeTag node = T_SelectStmt then
        WALK_each walker
          [ptr node ''distinctClause'', ptr node ''intoClause'', ptr node ''targetList'',
           ptr node ''fromClause'', ptr node ''whereClause'', ptr node ''groupClause'',
           ptr node ''havingClause'', ptr node ''windowClause'', ptr node ''valuesLists'',
           ptr node ''sortClause'', ptr node ''limitOffset'', ptr node ''limitCount'',
           ptr node ''lockingClause'', ptr node ''withClause'', ptr node ''larg'',
           ptr node ''rarg'']
      else if nodeTag node = T_PLAssignStmt then
        WALK_each walker [ptr node ''indirection'', ptr node ''val'']
      else if nodeTag node = T_A_Expr then
        WALK_each walker [ptr node ''lexpr'', ptr node ''rexpr'']
      else if nodeTag node = T_BoolExpr then WALK_each walker [ptr node ''args'']
      else if nodeTag node = T_ColumnRef then return_false
      else if nodeTag node = T_FuncCall then
        WALK_each walker
          [ptr node ''args'', ptr node ''agg_order'', ptr node ''agg_filter'',
           ptr node ''over'']
      else if nodeTag node = T_NamedArgExpr then WALK walker (ptr node ''arg'')
      else if nodeTag node = T_A_Indices then
        WALK_each walker [ptr node ''lidx'', ptr node ''uidx'']
      else if nodeTag node = T_A_Indirection then
        WALK_each walker [ptr node ''arg'', ptr node ''indirection'']
      else if nodeTag node = T_A_ArrayExpr then WALK walker (ptr node ''elements'')
      else if nodeTag node = T_ResTarget then
        WALK_each walker [ptr node ''indirection'', ptr node ''val'']
      else if nodeTag node = T_MultiAssignRef then WALK walker (ptr node ''source'')
      else if nodeTag node = T_TypeCast then
        WALK_each walker [ptr node ''arg'', ptr node ''typeName'']
      else if nodeTag node = T_CollateClause then WALK walker (ptr node ''arg'')
      else if nodeTag node = T_SortBy then WALK walker (ptr node ''node'')
      else if nodeTag node = T_WindowDef then
        WALK_each walker
          [ptr node ''partitionClause'', ptr node ''orderClause'',
           ptr node ''startOffset'', ptr node ''endOffset'']
      else if nodeTag node = T_RangeSubselect then
        WALK_each walker [ptr node ''subquery'', ptr node ''alias'']
      else if nodeTag node = T_RangeFunction then
        WALK_each walker
          [ptr node ''functions'', ptr node ''alias'', ptr node ''coldeflist'']
      else if nodeTag node = T_RangeTableSample then
        WALK_each walker [ptr node ''relation'', ptr node ''args'', ptr node ''repeatable'']
      else if nodeTag node = T_RangeTableFunc then
        WALK_each walker
          [ptr node ''docexpr'', ptr node ''rowexpr'', ptr node ''namespaces'',
           ptr node ''columns'', ptr node ''alias'']
      else if nodeTag node = T_RangeTableFuncCol then
        WALK_each walker [ptr node ''colexpr'', ptr node ''coldefexpr'']
      else if nodeTag node = T_TypeName then
        WALK_each walker [ptr node ''typmods'', ptr node ''arrayBounds'']
      else if nodeTag node = T_ColumnDef then
        WALK_each walker
          [ptr node ''typeName'', ptr node ''raw_default'', ptr node ''collClause'']
      else if nodeTag node = T_IndexElem then WALK_each walker [ptr node ''expr'']
      else if nodeTag node = T_GroupingSet then WALK walker (ptr node ''content'')
      else if nodeTag node = T_LockingClause then WALK walker (ptr node ''lockedRels'')
      else if nodeTag node = T_XmlSerialize then
        WALK_each walker [ptr node ''expr'', ptr node ''typeName'']
      else if nodeTag node = T_WithClause then WALK walker (ptr node ''ctes'')
      else if nodeTag node = T_InferClause then
        WALK_each walker [ptr node ''indexElems'', ptr node ''whereClause'']
      else if nodeTag node = T_OnConflictClause then
        WALK_each walker
          [ptr node ''infer'', ptr node ''targetList'', ptr node ''whereClause'']
      else if nodeTag node = T_CommonTableExpr then WALK walker (ptr node ''ctequery'')
      else if nodeTag node = T_JsonOutput then
        WALK_each walker [ptr node ''typeName'', ptr node ''returning'']
      else if nodeTag node = T_JsonKeyValue then
        WALK_each walker [ptr node ''key'', ptr node ''value'']
      else if nodeTag node = T_JsonObjectConstructor then
        WALK_each walker [ptr node ''output'', ptr node ''exprs'']
      else if nodeTag node = T_JsonArrayConstructor then
        WALK_each walker [ptr node ''output'', ptr node ''exprs'']
      else if nodeTag node = T_JsonAggConstructor then
        WALK_each walker
          [ptr node ''output'', ptr node ''agg_order'', ptr node ''agg_filter'',
           ptr node ''over'']
      else if nodeTag node = T_JsonObjectAgg then
        WALK_each walker [ptr node ''constructor'', ptr node ''arg'']
      else if nodeTag node = T_JsonArrayAgg then
        WALK_each walker [ptr node ''constructor'', ptr node ''arg'']
      else if nodeTag node = T_JsonArrayQueryConstructor then
        WALK_each walker [ptr node ''output'', ptr node ''query'']
      else (\<lambda>w. case elog NOTICE ''unrecognized node type: %d'' (nodeTag node) w of
                  (Inl e, w') \<Rightarrow> (Inl e, w')
                | (Inr u, w') \<Rightarrow> (Inr False, w')))"

text \<open>
  \<^verbatim>\<open>raw_expression_tree_walker_impl(node, walker, context)\<close>: nothing to do for
  \<^verbatim>\<open>NULL\<close>; then the stack guard; then the \<^verbatim>\<open>switch\<close>. The function calls the
  callback on sub-nodes and never itself: descending further is the callback's
  business.
\<close>

definition raw_expression_tree_walker_impl ::
  "bool \<Rightarrow> node option \<Rightarrow> 'c tree_walker_callback \<Rightarrow> 'c action" where
  "raw_expression_tree_walker_impl stack_ok node walker w =
     (case node of
        None \<Rightarrow> (Inr False, w)
      | Some n \<Rightarrow>
          (case check_stack_depth stack_ok w of
             (Inl e, w') \<Rightarrow> (Inl e, w')
           | (Inr u, w') \<Rightarrow> raw_expression_tree_walker_switch n walker w'))"

text \<open>
  The walker routine that the comment above \<^verbatim>\<open>expression_tree_walker\<close> in the
  source prescribes for callers:
  \<^verbatim>\<open>if (node == NULL) return false; ...special actions...;
  return raw_expression_tree_walker(node, my_walker, context);\<close>
  Here the special action appends the node to the context, for every node. Each
  nested call takes a stack frame: \<open>depth\<close> is the number of nested calls that the
  stack guard still lets through.
\<close>

primrec my_walker :: "nat \<Rightarrow> node list tree_walker_callback" where
  "my_walker 0 =
     (\<lambda>node w. case node of
        None \<Rightarrow> (Inr False, w)
      | Some n \<Rightarrow>
          raw_expression_tree_walker_impl False node (\<lambda>n. return_false)
            (w\<lparr>ctx := ctx w @ [n]\<rparr>))"
| "my_walker (Suc depth) =
     (\<lambda>node w. case node of
        None \<Rightarrow> (Inr False, w)
      | Some n \<Rightarrow>
          raw_expression_tree_walker_impl True node (my_walker depth)
            (w\<lparr>ctx := ctx w @ [n]\<rparr>))"

text \<open>
  To speak of the calls of an arbitrary callback, \<open>logging walker\<close> runs \<open>walker\<close>
  on its own context and appends each call, the node passed and what the call
  returned, to a log kept beside that context, out of the callback's reach.
\<close>

type_synonym call_log = "(node option \<times> (error + bool)) list"

definition unlog :: "('c \<times> call_log) world \<Rightarrow> 'c world" where
  "unlog w = \<lparr>ctx = fst (ctx w), elog_out = elog_out w\<rparr>"

definition logging :: "'c tree_walker_callback \<Rightarrow> ('c \<times> call_log) tree_walker_callback" where
  "logging walker n w =
     (case walker n (unlog w) of
        (r, w') \<Rightarrow> (r, \<lparr>ctx = (ctx w', snd (ctx w) @ [(n, r)]), elog_out = elog_out w'\<rparr>))"

definition calls :: "('c \<times> call_log) world \<Rightarrow> call_log" where
  "calls w = snd (ctx w)"

subsection \<open>The walker as a dispatch table\<close>

text \<open>
  The spec reads the walker as a table from node kind to the order in which the
  child fields are visited. \<open>walked_members\<close> is that table for the kinds whose
  \<^verbatim>\<open>case\<close> walks a fixed list of members; a \<^verbatim>\<open>List\<close> has its cells walked, and a
  \<^verbatim>\<open>CaseExpr\<close> its \<^verbatim>\<open>arg\<close>, the \<^verbatim>\<open>expr\<close> and \<^verbatim>\<open>result\<close> of each of its \<^verbatim>\<open>CaseWhen\<close>
  cells, and its \<^verbatim>\<open>defresult\<close>. The table is compared with the \<^verbatim>\<open>switch\<close> below
  (\<open>switch_is_table\<close>).
\<close>

definition walked_members :: "(NodeTag \<times> string list) list" where
  "walked_members =
    [(T_JsonFormat, []), (T_SetToDefault, []), (T_CurrentOfExpr, []),
     (T_SQLValueFunction, []), (T_Integer, []), (T_Float, []), (T_Boolean, []),
     (T_String, []), (T_BitString, []), (T_ParamRef, []), (T_A_Const, []), (T_A_Star, []),
     (T_Alias, []), (T_RangeVar, [''alias'']), (T_GroupingFunc, [''args'']),
     (T_SubLink, [''testexpr'', ''subselect'']), (T_RowExpr, [''args'']),
     (T_CoalesceExpr, [''args'']), (T_MinMaxExpr, [''args'']),
     (T_XmlExpr, [''named_args'', ''args'']), (T_JsonReturning, [''format'']),
     (T_JsonValueExpr, [''raw_expr'', ''formatted_expr'', ''format'']),
     (T_JsonConstructorExpr, [''args'', ''func'', ''coercion'', ''returning'']),
     (T_JsonIsPredicate, [''expr'']), (T_NullTest, [''arg'']), (T_BooleanTest, [''arg'']),
     (T_JoinExpr, [''larg'', ''rarg'', ''quals'', ''alias'']),
     (T_IntoClause, [''rel'', ''viewQuery'']),
     (T_InsertStmt, [''relation'', ''cols'', ''selectStmt'', ''onConflictClause'', ''returningList'', ''withClause'']),
     (T_DeleteStmt, [''relation'', ''usingClause'', ''whereClause'', ''returningList'', ''withClause'']),
     (T_UpdateStmt, [''relation'', ''targetList'', ''whereClause'', ''fromClause'', ''returningList'', ''withClause'']),
     (T_MergeStmt, [''relation'', ''sourceRelation'', ''joinCondition'', ''mergeWhenClauses'', ''withClause'']),
     (T_MergeWhenClause, [''condition'', ''targetList'', ''values'']),
     (T_SelectStmt,
       [''distinctClause'', ''intoClause'', ''targetList'', ''fromClause'', ''whereClause'',
        ''groupClause'', ''havingClause'', ''windowClause'', ''valuesLists'', ''sortClause'',
        ''limitOffset'', ''limitCount'', ''lockingClause'', ''withClause'', ''larg'', ''rarg'']),
     (T_PLAssignStmt, [''indirection'', ''val'']), (T_A_Expr, [''lexpr'', ''rexpr'']),
     (T_BoolExpr, [''args'']), (T_ColumnRef, []),
     (T_FuncCall, [''args'', ''agg_order'', ''agg_filter'', ''over'']),
     (T_NamedArgExpr, [''arg'']), (T_A_Indices, [''lidx'', ''uidx'']),
     (T_A_Indirection, [''arg'', ''indirection'']), (T_A_ArrayExpr, [''elements'']),
     (T_ResTarget, [''indirection'', ''val'']), (T_MultiAssignRef, [''source'']),
     (T_TypeCast, [''arg'', ''typeName'']), (T_CollateClause, [''arg'']),
     (T_SortBy, [''node'']),
     (T_WindowDef, [''partitionClause'', ''orderClause'', ''startOffset'', ''endOffset'']),
     (T_RangeSubselect, [''subquery'', ''alias'']),
     (T_RangeFunction, [''functions'', ''alias'', ''coldeflist'']),
     (T_RangeTableSample, [''relation'', ''args'', ''repeatable'']),
     (T_RangeTableFunc, [''docexpr'', ''rowexpr'', ''namespaces'', ''columns'', ''alias'']),
     (T_RangeTableFuncCol, [''colexpr'', ''coldefexpr'']),
     (T_TypeName, [''typmods'', ''arrayBounds'']),
     (T_ColumnDef, [''typeName'', ''raw_default'', ''collClause'']),
     (T_IndexElem, [''expr'']), (T_GroupingSet, [''content'']),
     (T_LockingClause, [''lockedRels'']), (T_XmlSerialize, [''expr'', ''typeName'']),
     (T_WithClause, [''ctes'']), (T_InferClause, [''indexElems'', ''whereClause'']),
     (T_OnConflictClause, [''infer'', ''targetList'', ''whereClause'']),
     (T_CommonTableExpr, [''ctequery'']), (T_JsonOutput, [''typeName'', ''returning'']),
     (T_JsonKeyValue, [''key'', ''value'']),
     (T_JsonObjectConstructor, [''output'', ''exprs'']),
     (T_JsonArrayConstructor, [''output'', ''exprs'']),
     (T_JsonAggConstructor, [''output'', ''agg_order'', ''agg_filter'', ''over'']),
     (T_JsonObjectAgg, [''constructor'', ''arg'']),
     (T_JsonArrayAgg, [''constructor'', ''arg'']),
     (T_JsonArrayQueryConstructor, [''output'', ''query''])]"

definition walker_recognizes :: "NodeTag \<Rightarrow> bool" where
  "walker_recognizes tag =
     (tag = T_List \<or> tag = T_CaseExpr \<or> tag \<in> set (map fst walked_members))"

text \<open>
  The \<^verbatim>\<open>expr\<close> and \<^verbatim>\<open>result\<close> of the cells of a \<^verbatim>\<open>CaseExpr\<close>, up to the first cell
  that is not a \<^verbatim>\<open>CaseWhen\<close>, and whether all cells are.
\<close>

fun CaseWhen_targets :: "node option list \<Rightarrow> node option list \<times> bool" where
  "CaseWhen_targets [] = ([], True)"
| "CaseWhen_targets (None # temps) = ([], False)"
| "CaseWhen_targets (Some when # temps) =
     (if nodeTag when = T_CaseWhen
      then (ptr when ''expr'' # ptr when ''result'' # fst (CaseWhen_targets temps),
            snd (CaseWhen_targets temps))
      else ([], False))"

definition CaseExpr_targets :: "node \<Rightarrow> node option list \<times> bool" where
  "CaseExpr_targets node =
     (case List_cells (ptr node ''args'') of
        None \<Rightarrow> ([ptr node ''arg''], False)
      | Some cells \<Rightarrow>
          if snd (CaseWhen_targets cells)
          then (ptr node ''arg'' # fst (CaseWhen_targets cells) @ [ptr node ''defresult''], True)
          else (ptr node ''arg'' # fst (CaseWhen_targets cells), False))"

text \<open>The sub-nodes passed to the callback for a node, in order.\<close>

definition walk_targets :: "node \<Rightarrow> node option list" where
  "walk_targets node =
     (if nodeTag node = T_List then list_cells node
      else if nodeTag node = T_CaseExpr then fst (CaseExpr_targets node)
      else case map_of walked_members (nodeTag node) of
             Some members \<Rightarrow> map (ptr node) members
           | None \<Rightarrow> [])"

text \<open>
  Whether the pointers that the walker dereferences through their declared types
  are what the types say: the \<^verbatim>\<open>args\<close> of a \<^verbatim>\<open>CaseExpr\<close> is a list of \<^verbatim>\<open>CaseWhen\<close>s.
\<close>

definition walk_ok :: "node \<Rightarrow> bool" where
  "walk_ok node = (if nodeTag node = T_CaseExpr then snd (CaseExpr_targets node) else True)"

text \<open>
  What a \<^verbatim>\<open>case\<close> does once its calls have all returned false: \<^verbatim>\<open>return false\<close>;
  for a \<^verbatim>\<open>CaseExpr\<close> whose cells are not all \<^verbatim>\<open>CaseWhen\<close>s the walk has stopped at
  the bad cell; under \<^verbatim>\<open>default\<close> the notice is logged first.
\<close>

definition walk_end :: "node \<Rightarrow> 'c action" where
  "walk_end node =
     (if walker_recognizes (nodeTag node)
      then (if walk_ok node then return_false else fail BadPointer)
      else (\<lambda>w. case elog NOTICE ''unrecognized node type: %d'' (nodeTag node) w of
                  (Inl e, w') \<Rightarrow> (Inl e, w')
                | (Inr u, w') \<Rightarrow> (Inr False, w')))"

subsection \<open>Whole walks\<close>

text \<open>
  The walker routine of the source's comment in general form:
  \<^verbatim>\<open>if (node == NULL) return false;\<close> then the special action on the node, which may
  change the context and says whether to abort the walk (\<^verbatim>\<open>return true\<close>); otherwise
  \<^verbatim>\<open>return raw_expression_tree_walker(node, my_walker, context);\<close> so that what the
  walk below the node returns is what the routine returns. \<open>my_walker\<close> above is the
  routine whose special action records the node and never aborts.
\<close>

type_synonym 'c special = "node \<Rightarrow> 'c world \<Rightarrow> bool \<times> 'c world"

primrec walker_routine :: "'c special \<Rightarrow> nat \<Rightarrow> 'c tree_walker_callback" where
  "walker_routine special 0 =
     (\<lambda>node w. case node of
        None \<Rightarrow> (Inr False, w)
      | Some n \<Rightarrow>
          (case special n w of
             (True, w') \<Rightarrow> (Inr True, w')
           | (False, w') \<Rightarrow>
               raw_expression_tree_walker_impl False node (\<lambda>n. return_false) w'))"
| "walker_routine special (Suc depth) =
     (\<lambda>node w. case node of
        None \<Rightarrow> (Inr False, w)
      | Some n \<Rightarrow>
          (case special n w of
             (True, w') \<Rightarrow> (Inr True, w')
           | (False, w') \<Rightarrow>
               raw_expression_tree_walker_impl True node (walker_routine special depth) w'))"

text \<open>
  The special action that records the node and aborts at the nodes that satisfy \<open>p\<close>.
\<close>

definition looking_for :: "(node \<Rightarrow> bool) \<Rightarrow> node list special" where
  "looking_for p n w = (p n, w\<lparr>ctx := ctx w @ [n]\<rparr>)"

text \<open>
  A callback that does not follow the routine: it returns true on a ColumnRef, and
  on any other node it calls the walker but discards what the walker returns,
  \<^verbatim>\<open>(void) raw_expression_tree_walker(node, swallow, context); return false;\<close>
  It records each node with what it returned for it. An error raised below is not
  a return value and still propagates.
\<close>

primrec swallow :: "nat \<Rightarrow> (node \<times> bool) list tree_walker_callback" where
  "swallow 0 =
     (\<lambda>node w. case node of
        None \<Rightarrow> (Inr False, w)
      | Some n \<Rightarrow>
          if nodeTag n = T_ColumnRef then (Inr True, w\<lparr>ctx := ctx w @ [(n, True)]\<rparr>)
          else (case raw_expression_tree_walker_impl False node (\<lambda>n. return_false) w of
                  (Inl e, w') \<Rightarrow> (Inl e, w')
                | (Inr b, w') \<Rightarrow> (Inr False, w'\<lparr>ctx := ctx w' @ [(n, False)]\<rparr>)))"
| "swallow (Suc depth) =
     (\<lambda>node w. case node of
        None \<Rightarrow> (Inr False, w)
      | Some n \<Rightarrow>
          if nodeTag n = T_ColumnRef then (Inr True, w\<lparr>ctx := ctx w @ [(n, True)]\<rparr>)
          else (case raw_expression_tree_walker_impl True node (swallow depth) w of
                  (Inl e, w') \<Rightarrow> (Inl e, w')
                | (Inr b, w') \<Rightarrow> (Inr False, w'\<lparr>ctx := ctx w' @ [(n, False)]\<rparr>)))"

text \<open>
  The nodes below a node: those that its walked members point to, each followed by
  the nodes below it, from left to right. This is the depth-first order of the tree
  that the \<^verbatim>\<open>case\<close>s of the walker span; a node that sits at two places of the tree
  is listed at each. \<open>walk_depth\<close> is the number of nested calls of the walker
  that a walk below the node needs. Both recursions go through \<open>walk_targets\<close>, whose
  entries are smaller than the node.
\<close>

lemma size_member: "x \<in> set xs \<Longrightarrow> f x \<le> size_list f xs"
  by (induction xs) auto

lemma CaseWhen_targets_size:
  "t \<in> set (fst (CaseWhen_targets cells)) \<Longrightarrow>
   size_option size t \<le> size_list (size_option size) cells"
proof (induction cells rule: CaseWhen_targets.induct)
  case (3 "when" temps)
  show ?case
  proof (cases "nodeTag when = T_CaseWhen")
    case True
    with 3 show ?thesis
      using size_ptr [of "when" "''expr''"] size_ptr [of "when" "''result''"]
      by auto
  next
    case False
    with 3 show ?thesis by simp
  qed
qed simp_all

lemma List_cells_size:
  "List_cells p = Some cells \<Longrightarrow> size_list (size_option size) cells \<le> size_option size p"
proof (cases p)
  case None
  assume "List_cells p = Some cells"
  with None show ?thesis by (simp add: List_cells_def)
next
  case (Some l)
  assume "List_cells p = Some cells"
  with Some have "cells = list_cells l"
    by (simp add: List_cells_def split: if_splits)
  with Some show ?thesis using size_list_cells [of l] by simp
qed

lemma walk_targets_size: "t \<in> set (walk_targets node) \<Longrightarrow> size_option size t \<le> size node"
proof (cases "nodeTag node = T_List")
  case True
  assume "t \<in> set (walk_targets node)"
  then have "t \<in> set (list_cells node)" using True by (simp add: walk_targets_def)
  then show ?thesis
    using size_member [of t "list_cells node" "size_option size"] size_list_cells [of node] by simp
next
  case nl: False
  assume t: "t \<in> set (walk_targets node)"
  show ?thesis
  proof (cases "nodeTag node = T_CaseExpr")
    case True
    then have "t \<in> set (fst (CaseExpr_targets node))" using t nl by (simp add: walk_targets_def)
    then consider "t = ptr node ''arg''" | "t = ptr node ''defresult''"
      | cells where "List_cells (ptr node ''args'') = Some cells" "t \<in> set (fst (CaseWhen_targets cells))"
      by (auto simp: CaseExpr_targets_def split: option.splits if_splits)
    then show ?thesis
    proof cases
      case 3
      then show ?thesis
        using CaseWhen_targets_size [of t cells] List_cells_size [of "ptr node ''args''" cells]
          size_ptr [of node "''args''"] by simp
    qed (simp_all add: size_ptr)
  next
    case False
    then show ?thesis
      using t nl by (auto simp: walk_targets_def size_ptr split: option.splits)
  qed
qed

definition targets_size :: "node option list \<Rightarrow> nat" where
  "targets_size ts = Max (insert 0 (size_option size ` set ts))"

lemma targets_size_walk_targets: "targets_size (walk_targets node) \<le> size node"
  by (simp add: targets_size_def walk_targets_size)

lemma targets_size_Cons: "targets_size ts \<le> targets_size (t # ts)"
  unfolding targets_size_def by (rule Max_mono) auto

lemma targets_size_Some: "Suc (size n) \<le> targets_size (Some n # ts)"
  unfolding targets_size_def by (rule Max_ge) auto

function descendants :: "node \<Rightarrow> node list"
  and descendants_list :: "node option list \<Rightarrow> node list" where
  "descendants node = descendants_list (walk_targets node)"
| "descendants_list [] = []"
| "descendants_list (None # ts) = descendants_list ts"
| "descendants_list (Some n # ts) = n # descendants n @ descendants_list ts"
  by pat_completeness auto

termination descendants
  apply (relation "measures
     [\<lambda>x. case x of Inl node \<Rightarrow> 2 * size node + 1 | Inr ts \<Rightarrow> 2 * targets_size ts,
      \<lambda>x. case x of Inl node \<Rightarrow> 0 | Inr ts \<Rightarrow> length ts]")
  subgoal by simp
  subgoal for node using targets_size_walk_targets [of node] by simp
  subgoal for ts using targets_size_Cons [of ts None] by auto
  subgoal for n ts using targets_size_Some [of n ts] by simp
  subgoal for n ts using targets_size_Cons [of ts "Some n"] by auto
  done

function walk_depth :: "node \<Rightarrow> nat"
  and walk_depth_list :: "node option list \<Rightarrow> nat" where
  "walk_depth node = walk_depth_list (walk_targets node)"
| "walk_depth_list [] = 0"
| "walk_depth_list (None # ts) = walk_depth_list ts"
| "walk_depth_list (Some n # ts) = max (Suc (walk_depth n)) (walk_depth_list ts)"
  by pat_completeness auto

termination walk_depth
  apply (relation "measures
     [\<lambda>x. case x of Inl node \<Rightarrow> 2 * size node + 1 | Inr ts \<Rightarrow> 2 * targets_size ts,
      \<lambda>x. case x of Inl node \<Rightarrow> 0 | Inr ts \<Rightarrow> length ts]")
  subgoal by simp
  subgoal for node using targets_size_walk_targets [of node] by simp
  subgoal for ts using targets_size_Cons [of ts None] by auto
  subgoal for n ts using targets_size_Some [of n ts] by simp
  subgoal for n ts using targets_size_Cons [of ts "Some n"] by auto
  done

declare descendants.simps [simp del] walk_depth.simps [simp del]

text \<open>
  What the walker itself does to the world at a node whose walked members all
  returned false: nothing, or the notice of the \<^verbatim>\<open>default\<close> case.
\<close>

definition walker_notice :: "node \<Rightarrow> 'c world \<Rightarrow> 'c world" where
  "walker_notice node w =
     (if walker_recognizes (nodeTag node) then w
      else w\<lparr>elog_out := elog_out w @ [(NOTICE, ''unrecognized node type: %d'', nodeTag node)]\<rparr>)"

text \<open>
  A walk along a list of nodes: the special action on each node in turn, once,
  stopping at the first node where it says to abort. \<open>answered\<close> makes the outcome
  a return value of the walker.
\<close>

fun walk_nodes :: "'c special \<Rightarrow> node list \<Rightarrow> 'c world \<Rightarrow> bool \<times> 'c world" where
  "walk_nodes special [] w = (False, w)"
| "walk_nodes special (n # ns) w =
     (case special n w of
        (True, w') \<Rightarrow> (True, w')
      | (False, w') \<Rightarrow> walk_nodes special ns (walker_notice n w'))"

definition answered :: "bool \<times> 'c world \<Rightarrow> (error + bool) \<times> 'c world" where
  "answered r = (Inr (fst r), snd r)"

section \<open>The parse entry point\<close>

text \<open>
  \<^verbatim>\<open>pg_query_internal.h\<close> declares the entry point and its result; \<^verbatim>\<open>PgQueryError\<close>
  is declared elsewhere and has the fields the spec lists.
\<close>

definition STDERR_BUFFER_LEN :: nat where
  "STDERR_BUFFER_LEN = 4096"

record PgQueryError =
  message :: string
  funcname :: string
  filename :: string
  lineno :: int
  cursorpos :: int

record PgQueryInternalParsetreeAndError =
  tree :: "node option"
  stderr_buffer :: string
  error :: "PgQueryError option"

text \<open>
  Modelled from the spec: the body of \<^verbatim>\<open>pg_query_raw_parse\<close> is not under \<^verbatim>\<open>src/\<close>,
  only its declaration is. The spec: empty input yields an empty tree and no error;
  the embedded grammar is invoked (\<open>raw_parser\<close>, vendored: it gives the
  statement list or the failure, and the text it wrote to the diagnostic channel);
  on success the statement sequence is returned with no error, on any failure an
  empty tree and the error; the diagnostic text is captured, truncated to
  \<^verbatim>\<open>STDERR_BUFFER_LEN\<close> bytes. The tree is a \<^verbatim>\<open>List *\<close>: the empty sequence is \<^verbatim>\<open>NIL\<close>,
  the \<^verbatim>\<open>NULL\<close> pointer.
\<close>

definition pg_query_raw_parse ::
  "(string \<Rightarrow> int \<Rightarrow> (PgQueryError + node option) \<times> string) \<Rightarrow> string \<Rightarrow> int
   \<Rightarrow> PgQueryInternalParsetreeAndError" where
  "pg_query_raw_parse raw_parser input parser_options =
     (if input = [] then \<lparr>tree = None, stderr_buffer = [], error = None\<rparr>
      else
        (case raw_parser input parser_options of
           (Inr stmts, diagnostics) \<Rightarrow>
             \<lparr>tree = stmts, stderr_buffer = take STDERR_BUFFER_LEN diagnostics, error = None\<rparr>
         | (Inl err, diagnostics) \<Rightarrow>
             \<lparr>tree = None, stderr_buffer = take STDERR_BUFFER_LEN diagnostics,
              error = Some err\<rparr>))"

section \<open>Properties of exprLocation\<close>

subsection \<open>The branches used below\<close>

lemma exprLocation_List: "exprLocation (Some (List cells)) = exprLocation_foreach cells (-1)"
  by (simp add: exprLocation.simps(2) tag_defs)

lemma exprLocation_A_Expr:
  "nodeTag expr = T_A_Expr \<Longrightarrow>
   exprLocation (Some expr) =
     map_sum id (leftmostLoc (location expr)) (exprLocation (ptr expr ''lexpr''))"
  by (simp add: exprLocation.simps(2) tag_defs)

lemma exprLocation_ColumnRef: "exprLocation (Some (Node T_ColumnRef loc ptrs)) = Inr loc"
  by (simp add: exprLocation.simps(2) tag_defs)

lemma exprLocation_TypeCast:
  "nodeTag expr = T_TypeCast \<Longrightarrow> ptr expr ''typeName'' = Some tn \<Longrightarrow> nodeTag tn = T_TypeName \<Longrightarrow>
   exprLocation (Some expr) =
     map_sum id (\<lambda>a. leftmostLoc (leftmostLoc a (location tn)) (location expr))
       (exprLocation (ptr expr ''arg''))"
  by (simp add: exprLocation.simps(2) tag_defs split: sum.splits)

text \<open>The loop of \<^verbatim>\<open>case T_List\<close> passes over members that resolve to a negative value.\<close>

lemma exprLocation_foreach_skips:
  "\<forall>p\<in>set pre. \<exists>v<0. exprLocation p = Inr v \<Longrightarrow> exprLocation m = Inr l \<Longrightarrow> 0 \<le> l \<Longrightarrow>
   exprLocation_foreach (pre @ m # post) loc = Inr l"
  by (induction pre arbitrary: loc) auto

lemma exprLocation_foreach_unknown:
  "\<forall>m\<in>set cells. exprLocation m = Inr (-1) \<Longrightarrow> exprLocation_foreach cells (-1) = Inr (-1)"
  by (induction cells) auto

subsection \<open>leftmostLoc\<close>

text \<open>
  C2, amended. For every integer \<open>x\<close>, \<open>leftmostLoc (-1) x = x\<close>; for every \<open>x \<ge> -1\<close>,
  that is for every location (a non-negative offset or the sentinel \<open>-1\<close>),
  \<open>leftmostLoc x (-1) = x\<close>; for all \<open>a \<ge> 0\<close> and \<open>b \<ge> 0\<close>, \<open>leftmostLoc a b = min a b\<close>;
  and the result is non-negative as soon as one argument is: a negative argument
  never acts as a false minimum.
\<close>

theorem leftmostLoc_unknown_identity:
  "leftmostLoc (-1) x = x
   \<and> (-1 \<le> x \<longrightarrow> leftmostLoc x (-1) = x)
   \<and> (0 \<le> a \<and> 0 \<le> b \<longrightarrow> leftmostLoc a b = min a b)
   \<and> (0 \<le> a \<or> 0 \<le> b \<longrightarrow> 0 \<le> leftmostLoc a b)"
  by (auto simp: leftmostLoc_def)

theorem leftmostLoc_unknown_identity_witness:
  "leftmostLoc (-1) 7 = 7 \<and> leftmostLoc 7 (-1) = 7 \<and> leftmostLoc (-1) (-1) = -1
   \<and> leftmostLoc 9 4 = min 9 4 \<and> 0 \<le> leftmostLoc (-1) 4"
  using leftmostLoc_unknown_identity [of 7 9 4] leftmostLoc_unknown_identity [of "-1" "-1" 4]
  by simp

text \<open>
  C2 as stated fails for a first argument below \<open>-1\<close>: the test is \<^verbatim>\<open>loc1 < 0\<close>, so
  \<open>leftmostLoc (-5) (-1)\<close> is the second argument, \<open>-1\<close>, and not \<open>-5\<close>.
\<close>

theorem leftmostLoc_right_identity_counterexample:
  "leftmostLoc (-5) (-1) = -1 \<and> leftmostLoc (-5) (-1) \<noteq> -5"
  by (simp add: leftmostLoc_def)

subsection \<open>Kinds resolved to their own location\<close>

text \<open>
  C3, amended. For a node of one of the kinds of \<open>location_verbatim_tags\<close>
  (RangeVar, TableFunc, Var, Const, Param, Aggref, GroupingFunc, WindowFunc,
  CaseExpr, CaseWhen, ArrayExpr, RowExpr, CoalesceExpr, MinMaxExpr,
  SQLValueFunction, JsonFormat, JsonConstructorExpr, JsonIsPredicate,
  CoerceToDomainValue, SetToDefault, ColumnRef, ParamRef, A_Const, A_ArrayExpr,
  ResTarget, WindowDef, RangeTableSample, TypeName, ColumnDef, Constraint,
  XmlSerialize, GroupingSet, WithClause, InferClause, OnConflictClause,
  CTESearchClause, CTECycleClause, CommonTableExpr, the JSON object, array,
  array-query and aggregate constructors, PartitionElem, PartitionSpec,
  PartitionBoundSpec, PartitionRangeDatum), \<open>exprLocation\<close> returns the node's own
  \<^verbatim>\<open>location\<close> member and consults no child. The kinds A_Expr, NullTest, BooleanTest
  and CoerceToDomain are not among them (they take the leftmost of their own
  location and an operand's), nor are FunctionParameter (forwarded to its type
  name) and A_Star (no \<^verbatim>\<open>case\<close>: \<open>-1\<close>).
\<close>

theorem exprLocation_verbatim:
  "nodeTag expr \<in> set location_verbatim_tags \<Longrightarrow> exprLocation (Some expr) = Inr (location expr)"
  unfolding location_verbatim_tags_def
  apply (simp only: list.set insert_iff empty_iff)
  apply (elim disjE FalseE)
  apply (simp_all add: exprLocation.simps(2) tag_defs)
  done

theorem exprLocation_verbatim_witness:
  "nodeTag (Node T_CaseExpr 12 [(''arg'', Some (Node T_ColumnRef 3 []))]) \<in> set location_verbatim_tags
   \<and> exprLocation (Some (Node T_CaseExpr 12 [(''arg'', Some (Node T_ColumnRef 3 []))])) = Inr 12"
proof -
  have h: "nodeTag (Node T_CaseExpr 12 [(''arg'', Some (Node T_ColumnRef 3 []))])
            \<in> set location_verbatim_tags"
    by (simp add: location_verbatim_tags_def)
  show ?thesis using h exprLocation_verbatim [OF h] by simp
qed

text \<open>
  C3 as stated fails for A_Expr, which the claim lists: for \<^verbatim>\<open>a + b\<close> with \<^verbatim>\<open>a\<close> at
  offset 0 and the operator at offset 2, the \<^verbatim>\<open>location\<close> member of the A_Expr is 2
  and \<open>exprLocation\<close> returns 0, the location of the left operand.
\<close>

theorem exprLocation_A_Expr_not_verbatim_counterexample:
  "location (Node T_A_Expr 2
      [(''lexpr'', Some (Node T_ColumnRef 0 [])), (''rexpr'', Some (Node T_ColumnRef 4 []))]) = 2
   \<and> exprLocation (Some (Node T_A_Expr 2
      [(''lexpr'', Some (Node T_ColumnRef 0 [])), (''rexpr'', Some (Node T_ColumnRef 4 []))]))
     = Inr 0"
  by (simp add: exprLocation_A_Expr exprLocation_ColumnRef leftmostLoc_def)

subsection \<open>A_Expr\<close>

text \<open>
  C6. For every A_Expr node, \<open>exprLocation\<close> is \<open>leftmostLoc\<close> of the node's own
  location and the resolved location of its left operand \<^verbatim>\<open>lexpr\<close> (a failure to
  resolve the operand is passed on); two A_Expr nodes with the same location and
  the same left operand resolve alike, whatever their right operands; and for
  \<^verbatim>\<open>a + b\<close>, with the column \<^verbatim>\<open>a\<close> at an offset \<open>a\<close> left of the operator's, the
  resolved location is \<open>a\<close>.
\<close>

theorem exprLocation_A_Expr_left_operand:
  "(nodeTag expr = T_A_Expr \<longrightarrow>
      exprLocation (Some expr) =
        map_sum id (leftmostLoc (location expr)) (exprLocation (ptr expr ''lexpr'')))
   \<and> (nodeTag e1 = T_A_Expr \<and> nodeTag e2 = T_A_Expr \<and> location e1 = location e2
        \<and> ptr e1 ''lexpr'' = ptr e2 ''lexpr'' \<longrightarrow>
      exprLocation (Some e1) = exprLocation (Some e2))
   \<and> (0 \<le> a \<and> a < oploc \<longrightarrow>
      exprLocation (Some (Node T_A_Expr oploc
        [(''lexpr'', Some (Node T_ColumnRef a fa)), (''rexpr'', b)])) = Inr a)"
  by (simp add: exprLocation_A_Expr exprLocation_ColumnRef leftmostLoc_def)

theorem exprLocation_A_Expr_left_operand_witness:
  "exprLocation (Some (Node T_A_Expr 2
      [(''lexpr'', Some (Node T_ColumnRef 0 [])), (''rexpr'', Some (Node T_A_Const 4 []))])) = Inr 0
   \<and> exprLocation (Some (Node T_A_Expr 2
      [(''lexpr'', Some (Node T_ColumnRef 0 [])), (''rexpr'', Some (Node T_A_Const 4 []))]))
     = exprLocation (Some (Node T_A_Expr 2
      [(''lexpr'', Some (Node T_ColumnRef 0 [])), (''rexpr'', None)]))"
  using exprLocation_A_Expr_left_operand
    [of "Node T_A_Expr 2 [(''lexpr'', Some (Node T_ColumnRef 0 [])), (''rexpr'', Some (Node T_A_Const 4 []))]"
        "Node T_A_Expr 2 [(''lexpr'', Some (Node T_ColumnRef 0 [])), (''rexpr'', Some (Node T_A_Const 4 []))]"
        "Node T_A_Expr 2 [(''lexpr'', Some (Node T_ColumnRef 0 [])), (''rexpr'', None)]"
        0 2 "[]" "Some (Node T_A_Const 4 [])"]
  by (simp add: exprLocation_A_Expr exprLocation_ColumnRef leftmostLoc_def)

subsection \<open>List\<close>

text \<open>
  C7. For a \<^verbatim>\<open>List\<close>, \<open>exprLocation\<close> returns the resolved location of the first
  member, in order, whose resolved location is known (\<open>\<ge> 0\<close>), the members before
  it resolving to negative values; it returns \<open>-1\<close> when every member resolves to
  the unknown location \<open>-1\<close>, and for the empty list; and the list
  \<open>[NULL, NULL, N]\<close> resolves as \<open>N\<close> does.
\<close>

theorem exprLocation_List_first_known:
  "((\<forall>p\<in>set pre. \<exists>v<0. exprLocation p = Inr v) \<and> exprLocation m = Inr l \<and> 0 \<le> l \<longrightarrow>
      exprLocation (Some (List (pre @ m # post))) = Inr l)
   \<and> ((\<forall>c\<in>set cells. exprLocation c = Inr (-1)) \<longrightarrow> exprLocation (Some (List cells)) = Inr (-1))
   \<and> exprLocation (Some (List [])) = Inr (-1)
   \<and> exprLocation (Some (List [None, None, N])) = exprLocation N"
proof -
  have "exprLocation (Some (List [None, None, N])) = exprLocation N"
    by (cases "exprLocation N") (simp_all add: exprLocation_List)
  then show ?thesis
    by (simp add: exprLocation_List exprLocation_foreach_skips exprLocation_foreach_unknown)
qed

theorem exprLocation_List_first_known_witness:
  "exprLocation (Some (List [None, Some (List []), Some (Node T_ColumnRef 7 []),
      Some (Node T_ColumnRef 3 [])])) = Inr 7
   \<and> exprLocation (Some (List [None, None])) = Inr (-1)
   \<and> exprLocation (Some (List [None, None, Some (Node T_ColumnRef 7 [])])) = Inr 7"
  using exprLocation_List_first_known
    [of "[None, Some (List [])]" "Some (Node T_ColumnRef 7 [])" 7 "[Some (Node T_ColumnRef 3 [])]"
        "[None, None]" "Some (Node T_ColumnRef 7 [])"]
  by (simp add: exprLocation_ColumnRef)

subsection \<open>TypeCast\<close>

text \<open>
  C8. For every TypeCast node, whose \<^verbatim>\<open>typeName\<close> points to a TypeName,
  \<open>exprLocation\<close> combines with \<open>leftmostLoc\<close> three candidates: the resolved location
  \<open>a\<close> of the casted expression \<^verbatim>\<open>arg\<close>, the \<^verbatim>\<open>location\<close> member of the type name, and the
  node's own \<^verbatim>\<open>location\<close>. The result is one of the three, it is not to the right of
  any candidate that is known, and it is known as soon as one candidate is.
\<close>

theorem exprLocation_TypeCast_leftmost_of_three:
  "nodeTag expr = T_TypeCast \<Longrightarrow> ptr expr ''typeName'' = Some tn \<Longrightarrow> nodeTag tn = T_TypeName \<Longrightarrow>
   exprLocation (Some expr) =
     map_sum id (\<lambda>a. leftmostLoc (leftmostLoc a (location tn)) (location expr))
       (exprLocation (ptr expr ''arg''))
   \<and> leftmostLoc (leftmostLoc a (location tn)) (location expr) \<in> {a, location tn, location expr}
   \<and> (0 \<le> a \<longrightarrow> leftmostLoc (leftmostLoc a (location tn)) (location expr) \<le> a)
   \<and> (0 \<le> location tn \<longrightarrow>
        leftmostLoc (leftmostLoc a (location tn)) (location expr) \<le> location tn)
   \<and> (0 \<le> location expr \<longrightarrow>
        leftmostLoc (leftmostLoc a (location tn)) (location expr) \<le> location expr)
   \<and> (0 \<le> a \<or> 0 \<le> location tn \<or> 0 \<le> location expr \<longrightarrow>
        0 \<le> leftmostLoc (leftmostLoc a (location tn)) (location expr))"
  by (simp add: exprLocation_TypeCast) (auto simp: leftmostLoc_def)

theorem exprLocation_TypeCast_leftmost_of_three_witness:
  "exprLocation (Some (Node T_TypeCast 9
      [(''arg'', Some (Node T_A_Const 12 [])), (''typeName'', Some (Node T_TypeName 5 []))])) = Inr 5
   \<and> exprLocation (Some (Node T_TypeCast (-1)
      [(''arg'', Some (Node T_A_Const 12 [])), (''typeName'', Some (Node T_TypeName (-1) []))]))
     = Inr 12"
  using exprLocation_TypeCast_leftmost_of_three
    [of "Node T_TypeCast 9 [(''arg'', Some (Node T_A_Const 12 [])), (''typeName'', Some (Node T_TypeName 5 []))]"
        "Node T_TypeName 5 []" 12]
    exprLocation_TypeCast_leftmost_of_three
    [of "Node T_TypeCast (-1) [(''arg'', Some (Node T_A_Const 12 [])), (''typeName'', Some (Node T_TypeName (-1) []))]"
        "Node T_TypeName (-1) []" 12]
  by (simp add: exprLocation.simps(2) tag_defs leftmostLoc_def)

section \<open>Properties of the raw expression tree walker\<close>

subsection \<open>The switch is the dispatch table\<close>

lemma WALK_single: "WALK walker n = WALK_each walker [n]"
  by (rule ext)
     (simp add: WALK_each_def WALK_def return_false_def split: prod.splits sum.splits bool.splits)

lemma WALK_then_Nil: "WALK_then walker [] rest = rest"
  by (rule ext) simp

lemma WALK_each_Nil: "WALK_each walker [] = return_false"
  by (simp add: WALK_each_def WALK_then_Nil)

lemma WALK_then_append:
  "WALK_then walker (xs @ ys) rest = WALK_then walker xs (WALK_then walker ys rest)"
proof (rule ext)
  fix w show "WALK_then walker (xs @ ys) rest w = WALK_then walker xs (WALK_then walker ys rest) w"
    by (induction xs arbitrary: w) (auto split: prod.splits sum.splits bool.splits)
qed

lemma foreach_CaseWhen_table:
  "foreach_CaseWhen walker cells rest =
     WALK_then walker (fst (CaseWhen_targets cells))
       (if snd (CaseWhen_targets cells) then rest else fail BadPointer)"
proof (induction cells rule: CaseWhen_targets.induct)
  case 1
  show ?case by (rule ext) simp
next
  case (2 temps)
  show ?case by (rule ext) simp
next
  case (3 "when" temps)
  show ?case
  proof (cases "nodeTag when = T_CaseWhen")
    case True
    with 3 show ?thesis
      by (intro ext) (simp split: prod.splits sum.splits bool.splits)
  next
    case False
    then show ?thesis by (intro ext) simp
  qed
qed

lemma switch_List:
  "nodeTag node = T_List \<Longrightarrow>
   raw_expression_tree_walker_switch node walker = WALK_each walker (list_cells node)"
  by (simp add: raw_expression_tree_walker_switch_def tag_defs)

lemma switch_CaseExpr:
  "nodeTag node = T_CaseExpr \<Longrightarrow>
   raw_expression_tree_walker_switch node walker =
     WALK_then walker [ptr node ''arg'']
       (case List_cells (ptr node ''args'') of
          None \<Rightarrow> fail BadPointer
        | Some cells \<Rightarrow> foreach_CaseWhen walker cells (WALK_each walker [ptr node ''defresult'']))"
  by (simp add: raw_expression_tree_walker_switch_def tag_defs)

text \<open>Every entry of the table is the \<^verbatim>\<open>case\<close> of its tag: one evaluation of the switch each.\<close>

lemma walked_members_distinct: "distinct (map fst walked_members)"
  by (simp add: walked_members_def tag_defs)

lemma switch_member_table:
  "(tag, members) \<in> set walked_members \<Longrightarrow> nodeTag node = tag \<Longrightarrow>
   raw_expression_tree_walker_switch node walker = WALK_each walker (map (ptr node) members)"
  unfolding walked_members_def
  apply (simp only: list.set insert_iff empty_iff prod.inject)
  apply (elim disjE conjE FalseE)
  apply (simp_all add: raw_expression_tree_walker_switch_def tag_defs WALK_single WALK_each_Nil)
  done

lemma switch_default:
  "\<not> walker_recognizes (nodeTag node) \<Longrightarrow>
   raw_expression_tree_walker_switch node walker =
     (\<lambda>w. case elog NOTICE ''unrecognized node type: %d'' (nodeTag node) w of
            (Inl e, w') \<Rightarrow> (Inl e, w')
          | (Inr u, w') \<Rightarrow> (Inr False, w'))
   \<and> map_of walked_members (nodeTag node) = None"
  unfolding walker_recognizes_def
  apply (simp only: map_of_eq_None_iff de_Morgan_disj image_set)
  apply (simp add: walked_members_def raw_expression_tree_walker_switch_def)
  done

lemma walker_recognizes_cases:
  "walker_recognizes tag \<Longrightarrow>
   tag = T_List \<or> tag = T_CaseExpr \<or> (\<exists>members. (tag, members) \<in> set walked_members)"
  by (auto simp: walker_recognizes_def)

lemma impl_switch:
  "raw_expression_tree_walker_impl True (Some node) walker w =
   raw_expression_tree_walker_switch node walker w"
  by (simp add: raw_expression_tree_walker_impl_def check_stack_depth_def)

lemma impl_stack_exceeded:
  "raw_expression_tree_walker_impl False (Some node) walker w = (Inl StackDepthExceeded, w)"
  by (simp add: raw_expression_tree_walker_impl_def check_stack_depth_def)

lemma switch_is_table:
  "raw_expression_tree_walker_switch node walker =
     WALK_then walker (walk_targets node) (walk_end node)"
proof (cases "walker_recognizes (nodeTag node)")
  case False
  then show ?thesis
    using switch_default [OF False, of walker]
    by (auto simp: walk_end_def walk_targets_def WALK_then_Nil walker_recognizes_def)
next
  case True
  then consider (list) "nodeTag node = T_List"
    | (caseexpr) "nodeTag node = T_CaseExpr" "nodeTag node \<noteq> T_List"
    | (table) members where "(nodeTag node, members) \<in> set walked_members"
        "nodeTag node \<noteq> T_List" "nodeTag node \<noteq> T_CaseExpr"
    using walker_recognizes_cases by blast
  then show ?thesis
  proof cases
    case list
    then show ?thesis
      using True
      by (simp add: switch_List walk_end_def walk_targets_def walk_ok_def WALK_each_def tag_defs)
  next
    case caseexpr
    have snoc: "WALK_then walker (a # ts @ [d]) k =
        WALK_then walker [a] (WALK_then walker ts (WALK_then walker [d] k))"
      for a ts d and k :: "'a action"
      using WALK_then_append [of walker "[a]" "ts @ [d]" k] WALK_then_append [of walker ts "[d]" k]
      by simp
    have cons: "WALK_then walker (a # ts) k = WALK_then walker [a] (WALK_then walker ts k)"
      for a ts and k :: "'a action"
      using WALK_then_append [of walker "[a]" ts k] by simp
    show ?thesis
    proof (cases "List_cells (ptr node ''args'')")
      case None
      then show ?thesis
        using True caseexpr
        by (simp add: switch_CaseExpr walk_end_def walk_targets_def walk_ok_def CaseExpr_targets_def)
    next
      case (Some cells)
      then show ?thesis
        using True caseexpr
        by (cases "snd (CaseWhen_targets cells)")
           (simp_all add: switch_CaseExpr walk_end_def walk_targets_def walk_ok_def
              CaseExpr_targets_def foreach_CaseWhen_table WALK_each_def snoc
              cons [of _ "fst (CaseWhen_targets cells)"])
    qed
  next
    case table
    then show ?thesis
      using True switch_member_table [OF table(1) refl, of walker]
        map_of_is_SomeI [OF walked_members_distinct table(1)]
      by (simp add: walk_end_def walk_targets_def walk_ok_def WALK_each_def)
  qed
qed

lemma walk_targets_List: "walk_targets (List cells) = cells"
  by (simp add: walk_targets_def)

lemma walk_targets_SelectStmt:
  "walk_targets (Node T_SelectStmt loc ptrs) =
     map (ptr (Node T_SelectStmt loc ptrs))
       [''distinctClause'', ''intoClause'', ''targetList'', ''fromClause'', ''whereClause'',
        ''groupClause'', ''havingClause'', ''windowClause'', ''valuesLists'', ''sortClause'',
        ''limitOffset'', ''limitCount'', ''lockingClause'', ''withClause'', ''larg'', ''rarg'']"
  by (simp add: walk_targets_def walked_members_def tag_defs)

lemma walk_targets_A_Expr:
  "walk_targets (Node T_A_Expr loc ptrs) =
     [ptr (Node T_A_Expr loc ptrs) ''lexpr'', ptr (Node T_A_Expr loc ptrs) ''rexpr'']"
  by (simp add: walk_targets_def walked_members_def tag_defs)

lemma walk_targets_ColumnRef: "walk_targets (Node T_ColumnRef loc ptrs) = []"
  by (simp add: walk_targets_def walked_members_def tag_defs)

lemma walk_targets_A_Const: "walk_targets (Node T_A_Const loc ptrs) = []"
  by (simp add: walk_targets_def walked_members_def tag_defs)

lemma walk_ok_not_CaseExpr: "nodeTag node \<noteq> T_CaseExpr \<Longrightarrow> walk_ok node"
  by (simp add: walk_ok_def)

lemma walker_recognizes_examples:
  "walker_recognizes T_List" "walker_recognizes T_A_Expr"
  "walker_recognizes T_A_Const" "walker_recognizes T_ColumnRef"
  by (simp_all add: walker_recognizes_def walked_members_def tag_defs)

lemma walk_targets_CommonTableExpr:
  "walk_targets (Node T_CommonTableExpr loc ptrs) =
     [ptr (Node T_CommonTableExpr loc ptrs) ''ctequery'']"
  by (simp add: walk_targets_def walked_members_def tag_defs)

lemma walk_targets_CaseExpr_one_when:
  "walk_targets (Node T_CaseExpr loc
      [(''arg'', a),
       (''args'', Some (List [Some (Node T_CaseWhen wloc [(''expr'', e), (''result'', r)])])),
       (''defresult'', d)]) = [a, e, r, d]"
  by (simp add: walk_targets_def CaseExpr_targets_def List_cells_def tag_defs)

subsection \<open>The calls of the callback\<close>

lemma logging_calls:
  "calls (snd (logging v n w)) = calls w @ [(n, fst (logging v n w))]"
  by (simp add: logging_def calls_def split: prod.splits)

lemma logging_result: "fst (logging v n w) = fst (v n (unlog w))"
  by (simp add: logging_def split: prod.splits)

lemma logging_unlog: "unlog (snd (logging v n w)) = snd (v n (unlog w))"
  by (simp add: logging_def unlog_def split: prod.splits)

lemma WALK_then_logging:
  assumes rest: "\<And>w. fst (rest w) = r0 \<and> calls (snd (rest w)) = calls w"
  shows "\<exists>new. calls (snd (WALK_then (logging v) ns rest w)) = calls w @ new
      \<and> map fst new = take (length new) ns
      \<and> (\<forall>c\<in>set new. \<exists>s. snd c = fst (v (fst c) s))
      \<and> ((length new = length ns \<and> (\<forall>c\<in>set new. snd c = Inr False)
            \<and> fst (WALK_then (logging v) ns rest w) = r0)
         \<or> (new \<noteq> [] \<and> (\<forall>c\<in>set (butlast new). snd c = Inr False)
            \<and> snd (last new) \<noteq> Inr False
            \<and> fst (WALK_then (logging v) ns rest w) = snd (last new)))"
proof (induction ns arbitrary: w)
  case Nil
  show ?case using rest [of w] by (intro exI [of _ "[]"]) simp
next
  case (Cons n ns)
  obtain r w1 where lg: "logging v n w = (r, w1)" by fastforce
  have c1: "calls w1 = calls w @ [(n, r)]"
    using logging_calls [of v n w] lg by simp
  have r1: "\<exists>s. r = fst (v n s)"
    using logging_result [of v n w] lg by auto
  show ?case
  proof (cases "r = Inr False")
    case True
    have run: "WALK_then (logging v) (n # ns) rest w = WALK_then (logging v) ns rest w1"
      using lg True by (simp add: WALK_def)
    from Cons.IH [of w1] obtain new where
      n1: "calls (snd (WALK_then (logging v) ns rest w1)) = calls w1 @ new"
      and n2: "map fst new = take (length new) ns"
      and n3: "\<forall>c\<in>set new. \<exists>s. snd c = fst (v (fst c) s)"
      and n4: "(length new = length ns \<and> (\<forall>c\<in>set new. snd c = Inr False)
            \<and> fst (WALK_then (logging v) ns rest w1) = r0)
         \<or> (new \<noteq> [] \<and> (\<forall>c\<in>set (butlast new). snd c = Inr False)
            \<and> snd (last new) \<noteq> Inr False
            \<and> fst (WALK_then (logging v) ns rest w1) = snd (last new))"
      by blast
    have a: "calls (snd (WALK_then (logging v) ns rest w1)) = calls w @ ((n, r) # new)"
      using n1 c1 by simp
    have b: "map fst ((n, r) # new) = take (length ((n, r) # new)) (n # ns)"
      using n2 by simp
    have c: "\<forall>c\<in>set ((n, r) # new). \<exists>s. snd c = fst (v (fst c) s)"
      using n3 r1 by simp
    have d: "(length ((n, r) # new) = length (n # ns) \<and> (\<forall>c\<in>set ((n, r) # new). snd c = Inr False)
            \<and> fst (WALK_then (logging v) ns rest w1) = r0)
         \<or> ((n, r) # new \<noteq> [] \<and> (\<forall>c\<in>set (butlast ((n, r) # new)). snd c = Inr False)
            \<and> snd (last ((n, r) # new)) \<noteq> Inr False
            \<and> fst (WALK_then (logging v) ns rest w1) = snd (last ((n, r) # new)))"
      using n4 True by auto
    show ?thesis
      unfolding run using a b c d by blast
  next
    case False
    have run: "WALK_then (logging v) (n # ns) rest w = (r, w1)"
      using lg False by (simp add: WALK_def split: sum.splits bool.splits)
    have a: "calls w1 = calls w @ [(n, r)]" by (rule c1)
    have c: "\<forall>c\<in>set [(n, r)]. \<exists>s. snd c = fst (v (fst c) s)"
      using r1 by simp
    have d: "[(n, r)] \<noteq> [] \<and> (\<forall>c\<in>set (butlast [(n, r)]). snd c = Inr False)
            \<and> snd (last [(n, r)]) \<noteq> Inr False \<and> r = snd (last [(n, r)])
            \<and> map fst [(n, r)] = take (length [(n, r)]) (n # ns)"
      using False by simp
    show ?thesis
      unfolding run fst_conv snd_conv using a c d by blast
  qed
qed

lemma walk_ok_unrecognized: "\<not> walker_recognizes (nodeTag node) \<Longrightarrow> walk_ok node"
  by (simp add: walk_ok_def walker_recognizes_def)

lemma walk_end_calls:
  "fst (walk_end node w) = (if walk_ok node then Inr False else Inl BadPointer)
   \<and> calls (snd (walk_end node (w :: ('c \<times> call_log) world))) = calls w"
  using walk_ok_unrecognized [of node]
  by (auto simp: walk_end_def return_false_def fail_def elog_def calls_def)

lemma walker_calls:
  "\<exists>new. calls (snd (raw_expression_tree_walker_impl True (Some node) (logging v) w)) = calls w @ new
      \<and> map fst new = take (length new) (walk_targets node)
      \<and> (\<forall>c\<in>set new. \<exists>s. snd c = fst (v (fst c) s))
      \<and> ((length new = length (walk_targets node) \<and> (\<forall>c\<in>set new. snd c = Inr False)
            \<and> fst (raw_expression_tree_walker_impl True (Some node) (logging v) w)
                = (if walk_ok node then Inr False else Inl BadPointer))
         \<or> (new \<noteq> [] \<and> (\<forall>c\<in>set (butlast new). snd c = Inr False)
            \<and> snd (last new) \<noteq> Inr False
            \<and> fst (raw_expression_tree_walker_impl True (Some node) (logging v) w) = snd (last new)))"
  unfolding impl_switch switch_is_table
  by (rule WALK_then_logging) (rule walk_end_calls)

text \<open>
  Logging changes nothing: the walker returns the same with \<open>logging v\<close> as with \<open>v\<close>,
  and leaves the world of \<open>v\<close> the same.
\<close>

lemma WALK_then_unlog:
  assumes rest: "\<And>w. fst (rest' w) = fst (rest (unlog w))
                   \<and> unlog (snd (rest' w)) = snd (rest (unlog w))"
  shows "fst (WALK_then (logging v) ns rest' w) = fst (WALK_then v ns rest (unlog w))
       \<and> unlog (snd (WALK_then (logging v) ns rest' w)) = snd (WALK_then v ns rest (unlog w))"
proof (induction ns arbitrary: w)
  case Nil
  show ?case using rest [of w] by simp
next
  case (Cons n ns)
  obtain r w1 where lg: "logging v n w = (r, w1)" by fastforce
  have v: "v n (unlog w) = (r, unlog w1)"
    using logging_result [of v n w] logging_unlog [of v n w] lg
    by (simp add: prod_eq_iff)
  show ?case
  proof (cases "r = Inr False")
    case True
    then show ?thesis using Cons.IH [of w1] lg v by (simp add: WALK_def)
  next
    case False
    then show ?thesis using lg v by (simp add: WALK_def split: sum.splits bool.splits)
  qed
qed

lemma walk_end_unlog:
  "fst (walk_end node w) = fst (walk_end node (unlog w))
   \<and> unlog (snd (walk_end node w)) = snd (walk_end node (unlog w))"
  by (simp add: walk_end_def return_false_def fail_def elog_def unlog_def)

lemma logging_transparent:
  "fst (raw_expression_tree_walker_impl True (Some node) (logging v) w)
     = fst (raw_expression_tree_walker_impl True (Some node) v (unlog w))
   \<and> unlog (snd (raw_expression_tree_walker_impl True (Some node) (logging v) w))
     = snd (raw_expression_tree_walker_impl True (Some node) v (unlog w))"
  unfolding impl_switch switch_is_table
  by (rule WALK_then_unlog) (rule walk_end_unlog)

lemma all_false_calls:
  "map fst new = ts \<Longrightarrow> \<forall>c\<in>set new. snd c = x \<Longrightarrow> new = map (\<lambda>n. (n, x)) ts"
  by (induction new arbitrary: ts) auto

lemmas walker_eval =
  raw_expression_tree_walker_impl_def check_stack_depth_def raw_expression_tree_walker_switch_def
  tag_defs WALK_def WALK_each_def return_false_def fail_def List_cells_def elog_def


subsection \<open>The walker routine walks the nodes below in depth-first order\<close>

lemma walk_nodes_append:
  "walk_nodes special (xs @ ys) w =
     (case walk_nodes special xs w of (True, w') \<Rightarrow> (True, w') | (False, w') \<Rightarrow> walk_nodes special ys w')"
  by (induction xs arbitrary: w) (auto split: prod.splits bool.splits)

lemma WALK_then_walk_nodes:
  assumes none: "\<And>w. None \<in> set ts \<Longrightarrow> v None w = (Inr False, w)"
    and some: "\<And>n w. Some n \<in> set ts \<Longrightarrow>
                 v (Some n) w = answered (walk_nodes special (n # descendants n) w)"
  shows "WALK_then v ts rest w =
           (case walk_nodes special (descendants_list ts) w of
              (True, w') \<Rightarrow> (Inr True, w') | (False, w') \<Rightarrow> rest w')"
  using assms
proof (induction ts arbitrary: w)
  case Nil
  show ?case by simp
next
  case (Cons t ts)
  have ih: "\<And>w. WALK_then v ts rest w =
           (case walk_nodes special (descendants_list ts) w of
              (True, w') \<Rightarrow> (Inr True, w') | (False, w') \<Rightarrow> rest w')"
    by (rule Cons.IH) (simp_all add: Cons.prems)
  show ?case
  proof (cases t)
    case None
    then have "v t w = (Inr False, w)" using Cons.prems(1) by simp
    then show ?thesis using None ih by (simp add: WALK_def)
  next
    case (Some n)
    have run: "v t w = answered (walk_nodes special (n # descendants n) w)"
      using Cons.prems(2) [of n w] Some by simp
    obtain b w1 where r: "walk_nodes special (n # descendants n) w = (b, w1)"
      by (cases "walk_nodes special (n # descendants n) w")
    have app: "walk_nodes special (descendants_list (t # ts)) w =
          (case walk_nodes special (n # descendants n) w of
             (True, w') \<Rightarrow> (True, w') | (False, w') \<Rightarrow> walk_nodes special (descendants_list ts) w')"
      using walk_nodes_append [of special "n # descendants n" "descendants_list ts" w] Some
      by simp
    show ?thesis
    proof (cases b)
      case True
      then show ?thesis using run r app by (simp add: WALK_def answered_def)
    next
      case False
      then show ?thesis using run r app ih [of w1] by (simp add: WALK_def answered_def)
    qed
  qed
qed

lemma walk_depth_member: "Some n \<in> set ts \<Longrightarrow> Suc (walk_depth n) \<le> walk_depth_list ts"
proof (induction ts)
  case Nil
  then show ?case by simp
next
  case (Cons t ts)
  then show ?case by (cases t) auto
qed

lemma walk_depth_target: "Some n \<in> set (walk_targets node) \<Longrightarrow> Suc (walk_depth n) \<le> walk_depth node"
  using walk_depth_member [of n "walk_targets node"] walk_depth.simps(1) [of node] by simp

lemma descendants_member:
  "Some n \<in> set ts \<Longrightarrow> set (n # descendants n) \<subseteq> set (descendants_list ts)"
proof (induction ts)
  case Nil
  then show ?case by simp
next
  case (Cons t ts)
  then show ?case by (cases t) auto
qed

lemma descendants_target:
  "Some n \<in> set (walk_targets node) \<Longrightarrow> set (n # descendants n) \<subseteq> set (descendants node)"
  using descendants_member [of n "walk_targets node"] descendants.simps(1) [of node] by simp

lemma walk_targets_unrecognized: "\<not> walker_recognizes (nodeTag node) \<Longrightarrow> walk_targets node = []"
proof -
  assume u: "\<not> walker_recognizes (nodeTag node)"
  then have "map_of walked_members (nodeTag node) = None"
    by (simp add: walker_recognizes_def map_of_eq_None_iff)
  then show ?thesis using u by (simp add: walk_targets_def walker_recognizes_def)
qed

lemma walk_end_ok:
  "walk_ok node \<Longrightarrow> walk_end node w = (Inr False, walker_notice node w)"
  by (simp add: walk_end_def walker_notice_def return_false_def elog_def)

lemma walk_nodes_finish:
  assumes "walk_ok node"
  shows "(case walk_nodes special (descendants node) w of
            (True, w') \<Rightarrow> (Inr True, w') | (False, w') \<Rightarrow> walk_end node w')
         = answered (walk_nodes special (descendants node) (walker_notice node w))"
proof (cases "walker_recognizes (nodeTag node)")
  case True
  then show ?thesis
    using assms
    by (simp add: walk_end_ok walker_notice_def answered_def split: prod.splits bool.splits)
next
  case False
  then have "descendants node = []"
    by (simp add: descendants.simps walk_targets_unrecognized)
  then show ?thesis using assms by (simp add: walk_end_ok answered_def)
qed

lemma walker_routine_walk_nodes:
  "walk_depth node \<le> depth \<Longrightarrow> list_all walk_ok (node # descendants node) \<Longrightarrow>
   raw_expression_tree_walker_impl True (Some node) (walker_routine special depth) w
     = answered (walk_nodes special (descendants node) (walker_notice node w))"
proof (induction depth arbitrary: node w)
  case 0
  have no: "Some n \<notin> set (walk_targets node)" for n
    using walk_depth_target [of n node] 0(1) by auto
  have "WALK_then (walker_routine special 0) (walk_targets node) (walk_end node) w =
           (case walk_nodes special (descendants_list (walk_targets node)) w of
              (True, w') \<Rightarrow> (Inr True, w') | (False, w') \<Rightarrow> walk_end node w')"
    by (rule WALK_then_walk_nodes) (simp_all add: no)
  moreover have "walk_ok node" using 0(2) by simp
  ultimately show ?case
    using walk_nodes_finish [of node special w]
    by (simp add: impl_switch switch_is_table descendants.simps)
next
  case (Suc depth)
  have ok: "walk_ok node" using Suc.prems(2) by simp
  have child: "walker_routine special (Suc depth) (Some n) s =
                 answered (walk_nodes special (n # descendants n) s)"
    if n: "Some n \<in> set (walk_targets node)" for n s
  proof -
    have d: "walk_depth n \<le> depth"
      using walk_depth_target [OF n] Suc.prems(1) by simp
    have "set (n # descendants n) \<subseteq> set (descendants node)"
      by (rule descendants_target [OF n])
    then have a: "list_all walk_ok (n # descendants n)"
      using Suc.prems(2) unfolding list_all_iff by auto
    have ih: "raw_expression_tree_walker_impl True (Some n) (walker_routine special depth) s'
                = answered (walk_nodes special (descendants n) (walker_notice n s'))" for s'
      by (rule Suc.IH [OF d a])
    show ?thesis
      by (simp add: ih answered_def split: prod.splits bool.splits)
  qed
  have "WALK_then (walker_routine special (Suc depth)) (walk_targets node) (walk_end node) w =
           (case walk_nodes special (descendants_list (walk_targets node)) w of
              (True, w') \<Rightarrow> (Inr True, w') | (False, w') \<Rightarrow> walk_end node w')"
  proof (rule WALK_then_walk_nodes)
    show "walker_routine special (Suc depth) None s = (Inr False, s)" for s by simp
    show "Some n \<in> set (walk_targets node) \<Longrightarrow>
          walker_routine special (Suc depth) (Some n) s =
            answered (walk_nodes special (n # descendants n) s)" for n s
      by (rule child)
  qed
  then show ?case
    using walk_nodes_finish [OF ok, of special w]
    by (simp add: impl_switch switch_is_table descendants.simps)
qed

lemma my_walker_routine:
  "my_walker depth = walker_routine (looking_for (\<lambda>n. False)) depth"
proof (induction depth)
  case 0
  show ?case by (simp add: fun_eq_iff looking_for_def split: option.splits)
next
  case (Suc depth)
  show ?case unfolding my_walker.simps walker_routine.simps Suc
    by (simp add: fun_eq_iff looking_for_def split: option.splits)
qed

lemma walk_nodes_never_stops:
  "(\<And>n s. \<not> fst (special n s)) \<Longrightarrow>
   walk_nodes special ns w = (False, fold (\<lambda>n s. walker_notice n (snd (special n s))) ns w)"
proof (induction ns arbitrary: w)
  case Nil
  show ?case by simp
next
  case (Cons n ns)
  obtain b w1 where r: "special n w = (b, w1)" by (cases "special n w")
  with Cons.prems [of n w] have "\<not> b" by simp
  then show ?case using r Cons.IH [OF Cons.prems] by simp
qed

lemma ctx_walker_notice: "ctx (walker_notice n w) = ctx w"
  by (simp add: walker_notice_def)

lemma fold_records:
  "ctx (fold (\<lambda>n s. walker_notice n (s\<lparr>ctx := ctx s @ [n]\<rparr>)) ns w) = ctx w @ ns"
  by (induction ns arbitrary: w) (simp_all add: ctx_walker_notice)

lemma walk_nodes_looking_for:
  "fst (walk_nodes (looking_for p) ns w) = (\<exists>n \<in> set ns. p n) \<and>
   ctx (snd (walk_nodes (looking_for p) ns w))
     = ctx w @ takeWhile (\<lambda>n. \<not> p n) ns @ take 1 (dropWhile (\<lambda>n. \<not> p n) ns) \<and>
   elog_out (snd (walk_nodes (looking_for p) ns w))
     = elog_out w @ map (\<lambda>n. (NOTICE, ''unrecognized node type: %d'', nodeTag n))
         (filter (\<lambda>n. \<not> walker_recognizes (nodeTag n)) (takeWhile (\<lambda>n. \<not> p n) ns))"
  by (induction ns arbitrary: w) (simp_all add: looking_for_def walker_notice_def)

lemma walk_nodes_recording:
  "fst (walk_nodes (looking_for (\<lambda>n. False)) ns w) = False \<and>
   ctx (snd (walk_nodes (looking_for (\<lambda>n. False)) ns w)) = ctx w @ ns \<and>
   elog_out (snd (walk_nodes (looking_for (\<lambda>n. False)) ns w))
     = elog_out w @ map (\<lambda>n. (NOTICE, ''unrecognized node type: %d'', nodeTag n))
         (filter (\<lambda>n. \<not> walker_recognizes (nodeTag n)) ns)"
  by (induction ns arbitrary: w) (simp_all add: looking_for_def walker_notice_def)

lemma elog_out_walker_notice:
  "elog_out (walker_notice n w)
     = elog_out w @ map (\<lambda>n. (NOTICE, ''unrecognized node type: %d'', nodeTag n))
         (filter (\<lambda>n. \<not> walker_recognizes (nodeTag n)) [n])"
  by (simp add: walker_notice_def)
subsection \<open>What is visited\<close>

text \<open>
  C1, amended. Take a node whose walk the stack guard lets through
  (\<open>walk_depth node \<le> depth\<close>) and below which every CaseExpr has a list of
  CaseWhens as its \<^verbatim>\<open>args\<close> (\<open>walk_ok\<close>). With the walker routine of the source as
  callback, \<^verbatim>\<open>raw_expression_tree_walker_impl\<close> returns false and the routine has
  been called exactly once on each node of \<open>descendants node\<close>, in that order, and on
  no other node: \<open>my_walker\<close> has appended exactly that list to its record, and for
  any special action that never aborts the final world is the one obtained by doing
  the action once at each node of the list, in order, the walker adding its notice
  at the nodes of unrecognized kind. \<open>descendants node\<close> lists the nodes reached from
  the start node through walked members, each followed by the nodes below it, from
  left to right, the start node excluded. At one level, for any callback: the calls
  the walker makes are made on an initial segment of \<open>walk_targets node\<close>, in order,
  and when all of them return false they are made on all of \<open>walk_targets node\<close>,
  once each, and the walker returns false. The entries of \<open>walk_targets\<close> are the
  members that the \<^verbatim>\<open>case\<close> of the node's kind walks, in the order of the source: the
  cells of a \<^verbatim>\<open>List\<close>; for a CaseExpr its \<^verbatim>\<open>arg\<close>, the \<^verbatim>\<open>expr\<close> and \<^verbatim>\<open>result\<close> of each
  CaseWhen, and its \<^verbatim>\<open>defresult\<close>, but not the CaseWhen nodes; for a
  CommonTableExpr its \<^verbatim>\<open>ctequery\<close> alone.
\<close>

theorem walker_depth_first_once:
  "(walk_depth node \<le> depth \<and> list_all walk_ok (node # descendants node) \<longrightarrow>
      fst (raw_expression_tree_walker_impl True (Some node) (my_walker depth) w) = Inr False
      \<and> ctx (snd (raw_expression_tree_walker_impl True (Some node) (my_walker depth) w))
          = ctx w @ descendants node
      \<and> elog_out (snd (raw_expression_tree_walker_impl True (Some node) (my_walker depth) w))
          = elog_out w @ map (\<lambda>n. (NOTICE, ''unrecognized node type: %d'', nodeTag n))
              (filter (\<lambda>n. \<not> walker_recognizes (nodeTag n)) (node # descendants node)))
   \<and> (walk_depth node \<le> depth \<and> list_all walk_ok (node # descendants node)
        \<and> (\<forall>n s. \<not> fst (special n s)) \<longrightarrow>
      raw_expression_tree_walker_impl True (Some node) (walker_routine special depth) s
        = (Inr False,
           fold (\<lambda>n s. walker_notice n (snd (special n s))) (descendants node)
             (walker_notice node s)))
   \<and> (\<exists>new. calls (snd (raw_expression_tree_walker_impl True (Some node) (logging v) l))
               = calls l @ new
        \<and> map fst new = take (length new) (walk_targets node)
        \<and> ((\<forall>c\<in>set new. snd c = Inr False) \<and> walk_ok node \<longrightarrow>
             map fst new = walk_targets node
             \<and> fst (raw_expression_tree_walker_impl True (Some node) (logging v) l) = Inr False))
   \<and> descendants node = descendants_list (walk_targets node)
   \<and> descendants_list (None # ts) = descendants_list ts
   \<and> descendants_list (Some n # ts) = n # descendants n @ descendants_list ts
   \<and> walk_targets (List cells) = cells
   \<and> walk_targets (Node T_CommonTableExpr loc ptrs)
       = [ptr (Node T_CommonTableExpr loc ptrs) ''ctequery'']
   \<and> walk_targets (Node T_CaseExpr cloc
        [(''arg'', a),
         (''args'', Some (List [Some (Node T_CaseWhen wloc [(''expr'', e), (''result'', r)])])),
         (''defresult'', d)]) = [a, e, r, d]"
proof -
  let ?D = "descendants node"
  have whole: "raw_expression_tree_walker_impl True (Some node) (walker_routine sp depth) x
                 = answered (walk_nodes sp ?D (walker_notice node x))"
    if "walk_depth node \<le> depth" "list_all walk_ok (node # ?D)" for sp x
    using that by (rule walker_routine_walk_nodes)
  have mine: "fst (raw_expression_tree_walker_impl True (Some node) (my_walker depth) w) = Inr False
      \<and> ctx (snd (raw_expression_tree_walker_impl True (Some node) (my_walker depth) w))
          = ctx w @ ?D
      \<and> elog_out (snd (raw_expression_tree_walker_impl True (Some node) (my_walker depth) w))
          = elog_out w @ map (\<lambda>n. (NOTICE, ''unrecognized node type: %d'', nodeTag n))
              (filter (\<lambda>n. \<not> walker_recognizes (nodeTag n)) (node # ?D))"
    if h: "walk_depth node \<le> depth" "list_all walk_ok (node # ?D)"
  proof -
    have run: "raw_expression_tree_walker_impl True (Some node) (my_walker depth) w
            = answered (walk_nodes (looking_for (\<lambda>n. False)) ?D (walker_notice node w))"
      unfolding my_walker_routine by (rule whole [OF h])
    show ?thesis
      unfolding run answered_def
      using walk_nodes_recording [of ?D "walker_notice node w"]
        elog_out_walker_notice [of node w]
      by (simp add: ctx_walker_notice)
  qed
  have never: "raw_expression_tree_walker_impl True (Some node) (walker_routine special depth) s
        = (Inr False,
           fold (\<lambda>n s. walker_notice n (snd (special n s))) ?D (walker_notice node s))"
    if h: "walk_depth node \<le> depth" "list_all walk_ok (node # ?D)"
      and ns: "\<forall>n s. \<not> fst (special n s)"
  proof -
    have "walk_nodes special ?D (walker_notice node s)
          = (False, fold (\<lambda>n s. walker_notice n (snd (special n s))) ?D (walker_notice node s))"
      by (rule walk_nodes_never_stops) (simp add: ns)
    then show ?thesis using whole [OF h, of special s] by (simp add: answered_def)
  qed
  have level: "\<exists>new. calls (snd (raw_expression_tree_walker_impl True (Some node) (logging v) l))
               = calls l @ new
        \<and> map fst new = take (length new) (walk_targets node)
        \<and> ((\<forall>c\<in>set new. snd c = Inr False) \<and> walk_ok node \<longrightarrow>
             map fst new = walk_targets node
             \<and> fst (raw_expression_tree_walker_impl True (Some node) (logging v) l) = Inr False)"
  proof -
    from walker_calls [of node v l] obtain new where
      n1: "calls (snd (raw_expression_tree_walker_impl True (Some node) (logging v) l)) = calls l @ new"
      and n2: "map fst new = take (length new) (walk_targets node)"
      and n4: "(length new = length (walk_targets node) \<and> (\<forall>c\<in>set new. snd c = Inr False)
            \<and> fst (raw_expression_tree_walker_impl True (Some node) (logging v) l)
                = (if walk_ok node then Inr False else Inl BadPointer))
         \<or> (new \<noteq> [] \<and> (\<forall>c\<in>set (butlast new). snd c = Inr False)
            \<and> snd (last new) \<noteq> Inr False
            \<and> fst (raw_expression_tree_walker_impl True (Some node) (logging v) l) = snd (last new))"
      by blast
    have n5: "map fst new = walk_targets node
             \<and> fst (raw_expression_tree_walker_impl True (Some node) (logging v) l) = Inr False"
      if allf: "\<forall>c\<in>set new. snd c = Inr False" and ok: "walk_ok node"
    proof -
      have "new \<noteq> [] \<Longrightarrow> snd (last new) = Inr False"
        using allf last_in_set by blast
      with n4 have len: "length new = length (walk_targets node)"
        and res: "fst (raw_expression_tree_walker_impl True (Some node) (logging v) l) = Inr False"
        using ok by auto
      show ?thesis using n2 len res by simp
    qed
    show ?thesis
      apply (rule exI [of _ new])
      apply (intro conjI impI)
         apply (rule n1)
        apply (rule n2)
       apply (rule conjunct1 [OF n5], erule conjunct1, erule conjunct2)
      apply (rule conjunct2 [OF n5], erule conjunct1, erule conjunct2)
      done
  qed
  show ?thesis
    apply (intro conjI)
           apply (rule impI, rule mine, erule conjunct1, erule conjunct2)
          apply (rule impI, rule never, erule conjunct1, erule conjunct2 [THEN conjunct1],
                 erule conjunct2 [THEN conjunct2])
         apply (rule level)
        apply (rule descendants.simps)
       apply (rule descendants_list.simps)
      apply (rule descendants_list.simps)
     apply (rule walk_targets_List)
    apply (rule walk_targets_CommonTableExpr)
    apply (rule walk_targets_CaseExpr_one_when)
    done
qed

theorem walker_depth_first_once_witness:
  "fst (raw_expression_tree_walker_impl True
          (Some (Node T_A_Expr 2
          [(''lexpr'', Some (Node T_ColumnRef 0 [(''fields'', Some (List [Some (Node T_String 0 [])]))])),
           (''rexpr'', Some (Node T_A_Expr 6
              [(''lexpr'', Some (Node T_A_Const 4 [])),
               (''rexpr'', Some (Node T_ColumnRef 8 []))]))]))
          (my_walker (Suc (Suc 0))) \<lparr>ctx = [], elog_out = []\<rparr>) = Inr False
   \<and> ctx (snd (raw_expression_tree_walker_impl True
          (Some (Node T_A_Expr 2
          [(''lexpr'', Some (Node T_ColumnRef 0 [(''fields'', Some (List [Some (Node T_String 0 [])]))])),
           (''rexpr'', Some (Node T_A_Expr 6
              [(''lexpr'', Some (Node T_A_Const 4 [])),
               (''rexpr'', Some (Node T_ColumnRef 8 []))]))]))
          (my_walker (Suc (Suc 0))) \<lparr>ctx = [], elog_out = []\<rparr>))
       = [Node T_ColumnRef 0 [(''fields'', Some (List [Some (Node T_String 0 [])]))],
          Node T_A_Expr 6
              [(''lexpr'', Some (Node T_A_Const 4 [])),
               (''rexpr'', Some (Node T_ColumnRef 8 []))],
          Node T_A_Const 4 [],
          Node T_ColumnRef 8 []]"
proof -
  let ?c = "Node T_ColumnRef 0 [(''fields'', Some (List [Some (Node T_String 0 [])]))]"
  let ?k = "Node T_A_Const 4 []"
  let ?d = "Node T_ColumnRef 8 []"
  let ?e = "Node T_A_Expr 6 [(''lexpr'', Some ?k), (''rexpr'', Some ?d)]"
  let ?T = "Node T_A_Expr 2 [(''lexpr'', Some ?c), (''rexpr'', Some ?e)]"
  have D: "descendants ?T = [?c, ?e, ?k, ?d]"
    by (simp add: descendants.simps walk_targets_A_Expr walk_targets_ColumnRef
          walk_targets_A_Const)
  have d: "walk_depth ?T \<le> Suc (Suc 0)"
    by (simp add: walk_depth.simps walk_targets_A_Expr walk_targets_ColumnRef
          walk_targets_A_Const)
  have ok: "list_all walk_ok (?T # descendants ?T)"
    unfolding D by (simp add: walk_ok_not_CaseExpr tag_defs)
  from walker_depth_first_once
    [of ?T "Suc (Suc 0)" "\<lparr>ctx = [], elog_out = []\<rparr>", THEN conjunct1, THEN mp, OF conjI, OF d ok]
  show ?thesis unfolding D by (simp del: my_walker.simps)
qed

text \<open>
  C1 as stated fails: nodes reachable from the start node are skipped. Here the
  callback is the walker routine that the source prescribes, which descends by
  calling the walker again and records every node it is called on. From a CaseExpr
  with one WHEN clause it reaches the ColumnRef and the A_Const; the CaseWhen node, a
  cell of the \<^verbatim>\<open>args\<close> of the start node, the \<^verbatim>\<open>List\<close> that holds it, and the \<^verbatim>\<open>fields\<close>
  of the ColumnRef are never passed to it.
\<close>

theorem walker_skips_CaseWhen_counterexample:
  "ptr (Node T_CaseExpr 0
         [(''arg'', None),
          (''args'', Some (List [Some (Node T_CaseWhen 5
             [(''expr'', Some (Node T_ColumnRef 10
                 [(''fields'', Some (List [Some (Node T_String 10 [])]))])),
              (''result'', Some (Node T_A_Const 17 []))])])),
          (''defresult'', None)]) ''args''
     = Some (List [Some (Node T_CaseWhen 5
             [(''expr'', Some (Node T_ColumnRef 10
                 [(''fields'', Some (List [Some (Node T_String 10 [])]))])),
              (''result'', Some (Node T_A_Const 17 []))])])
   \<and> raw_expression_tree_walker_impl True
       (Some (Node T_CaseExpr 0
         [(''arg'', None),
          (''args'', Some (List [Some (Node T_CaseWhen 5
             [(''expr'', Some (Node T_ColumnRef 10
                 [(''fields'', Some (List [Some (Node T_String 10 [])]))])),
              (''result'', Some (Node T_A_Const 17 []))])])),
          (''defresult'', None)]))
       (my_walker (Suc (Suc 0))) \<lparr>ctx = [], elog_out = []\<rparr>
     = (Inr False,
        \<lparr>ctx = [Node T_ColumnRef 10 [(''fields'', Some (List [Some (Node T_String 10 [])]))],
                Node T_A_Const 17 []],
         elog_out = []\<rparr>)"
  by (simp add: walker_eval)

subsection \<open>Stopping at the first true\<close>

text \<open>
  C5, amended. At one level, for every node and every callback \<open>v\<close>: the calls that
  \<^verbatim>\<open>raw_expression_tree_walker_impl\<close> makes past the stack guard (\<open>new\<close>, each with
  what \<open>v\<close> returned) are made on an initial segment of \<open>walk_targets node\<close>, in
  order, and either every target was called, every call returned false, and the
  walker returns false (\<^verbatim>\<open>BadPointer\<close> for a CaseExpr whose \<^verbatim>\<open>args\<close> is not a list of
  CaseWhens), or the last call did not return false, every call before it did, and
  the walker returns what the last call returned. So it returns true iff some call
  returned true, that call being the last, and false iff every target was called
  and returned false. Logging changes neither the result nor the world of \<open>v\<close>. The
  targets of a \<^verbatim>\<open>List\<close> are its cells, those of a SelectStmt its sixteen members in
  the order of the source. Below the targets, for the walker routine of the source
  with any special action, on a node whose walk the stack guard lets through and
  below which every CaseExpr is well formed: the walk is \<open>walk_nodes\<close> along
  \<open>descendants node\<close>, the special action once on each node in depth-first order
  up to the first node where it aborts, and the walker returns true iff it aborted.
  For the routine that looks for the nodes satisfying \<open>p\<close>: the walker returns true
  iff some node below the start node satisfies \<open>p\<close>, and the routine has been called
  on the nodes before the first such node and on that node, and on nothing after it.
\<close>

theorem walker_stops_at_first_true:
  "(\<exists>new. calls (snd (raw_expression_tree_walker_impl True (Some node) (logging v) w)) = calls w @ new
      \<and> map fst new = take (length new) (walk_targets node)
      \<and> (\<forall>c\<in>set new. \<exists>s. snd c = fst (v (fst c) s))
      \<and> ((length new = length (walk_targets node) \<and> (\<forall>c\<in>set new. snd c = Inr False)
            \<and> fst (raw_expression_tree_walker_impl True (Some node) (logging v) w)
                = (if walk_ok node then Inr False else Inl BadPointer))
         \<or> (new \<noteq> [] \<and> (\<forall>c\<in>set (butlast new). snd c = Inr False)
            \<and> snd (last new) \<noteq> Inr False
            \<and> fst (raw_expression_tree_walker_impl True (Some node) (logging v) w) = snd (last new)))
      \<and> (fst (raw_expression_tree_walker_impl True (Some node) (logging v) w) = Inr True
           \<longleftrightarrow> (\<exists>c\<in>set new. snd c = Inr True))
      \<and> (fst (raw_expression_tree_walker_impl True (Some node) (logging v) w) = Inr True
           \<longrightarrow> new \<noteq> [] \<and> snd (last new) = Inr True)
      \<and> (fst (raw_expression_tree_walker_impl True (Some node) (logging v) w) = Inr False
           \<longleftrightarrow> walk_ok node \<and> length new = length (walk_targets node)
               \<and> (\<forall>c\<in>set new. snd c = Inr False))
      \<and> ((\<exists>b. fst (raw_expression_tree_walker_impl True (Some node) (logging v) w) = Inr b) \<longrightarrow>
           (fst (raw_expression_tree_walker_impl True (Some node) (logging v) w) = Inr False
             \<longleftrightarrow> \<not> (\<exists>c\<in>set new. snd c = Inr True))))
   \<and> fst (raw_expression_tree_walker_impl True (Some node) (logging v) w)
       = fst (raw_expression_tree_walker_impl True (Some node) v (unlog w))
   \<and> unlog (snd (raw_expression_tree_walker_impl True (Some node) (logging v) w))
       = snd (raw_expression_tree_walker_impl True (Some node) v (unlog w))
   \<and> (walk_depth node \<le> depth \<and> list_all walk_ok (node # descendants node) \<longrightarrow>
        raw_expression_tree_walker_impl True (Some node) (walker_routine special depth) s
          = answered (walk_nodes special (descendants node) (walker_notice node s))
        \<and> fst (raw_expression_tree_walker_impl True (Some node)
                 (walker_routine (looking_for p) depth) f)
            = Inr (\<exists>n\<in>set (descendants node). p n)
        \<and> ctx (snd (raw_expression_tree_walker_impl True (Some node)
                 (walker_routine (looking_for p) depth) f))
            = ctx f @ takeWhile (\<lambda>n. \<not> p n) (descendants node)
                @ take 1 (dropWhile (\<lambda>n. \<not> p n) (descendants node)))
   \<and> walk_nodes special [] s = (False, s)
   \<and> walk_nodes special (n # ns) s =
       (case special n s of
          (True, s') \<Rightarrow> (True, s')
        | (False, s') \<Rightarrow> walk_nodes special ns (walker_notice n s'))
   \<and> walk_targets (List cells) = cells
   \<and> walk_targets (Node T_SelectStmt loc ptrs) =
       map (ptr (Node T_SelectStmt loc ptrs))
         [''distinctClause'', ''intoClause'', ''targetList'', ''fromClause'', ''whereClause'',
          ''groupClause'', ''havingClause'', ''windowClause'', ''valuesLists'', ''sortClause'',
          ''limitOffset'', ''limitCount'', ''lockingClause'', ''withClause'', ''larg'', ''rarg'']"
proof -
  let ?R = "fst (raw_expression_tree_walker_impl True (Some node) (logging v) w)"
  let ?D = "descendants node"
  from walker_calls [of node v w] obtain new where
    n1: "calls (snd (raw_expression_tree_walker_impl True (Some node) (logging v) w)) = calls w @ new"
    and n2: "map fst new = take (length new) (walk_targets node)"
    and n3: "\<forall>c\<in>set new. \<exists>s. snd c = fst (v (fst c) s)"
    and n4: "(length new = length (walk_targets node) \<and> (\<forall>c\<in>set new. snd c = Inr False)
          \<and> ?R = (if walk_ok node then Inr False else Inl BadPointer))
       \<or> (new \<noteq> [] \<and> (\<forall>c\<in>set (butlast new). snd c = Inr False)
          \<and> snd (last new) \<noteq> Inr False \<and> ?R = snd (last new))"
    by blast
  have bl: "\<forall>c\<in>set (butlast new). snd c = Inr False"
    using n4 by (auto dest: in_set_butlastD)
  have split: "c \<in> set new \<Longrightarrow> c \<in> set (butlast new) \<or> c = last new" for c
    by (cases new rule: rev_cases) auto
  have t: "?R = Inr True \<longleftrightarrow> (\<exists>c\<in>set new. snd c = Inr True)"
  proof
    assume "?R = Inr True"
    with n4 have "new \<noteq> []" "snd (last new) = Inr True" by (auto split: if_splits)
    then show "\<exists>c\<in>set new. snd c = Inr True" using last_in_set by blast
  next
    assume "\<exists>c\<in>set new. snd c = Inr True"
    then obtain c where c: "c \<in> set new" "snd c = Inr True" by blast
    with bl split [OF c(1)] have cl: "c = last new" by auto
    with n4 c show "?R = Inr True" by auto
  qed
  have t2: "?R = Inr True \<longrightarrow> new \<noteq> [] \<and> snd (last new) = Inr True"
    using n4 by (auto split: if_splits)
  have f: "?R = Inr False \<longleftrightarrow> walk_ok node \<and> length new = length (walk_targets node)
               \<and> (\<forall>c\<in>set new. snd c = Inr False)"
    using n4 last_in_set [of new] by (auto split: if_splits)
  have g: "(\<exists>b. ?R = Inr b) \<longrightarrow> (?R = Inr False \<longleftrightarrow> \<not> (\<exists>c\<in>set new. snd c = Inr True))"
  proof (intro impI)
    assume "\<exists>b. ?R = Inr b"
    then obtain b where b: "?R = Inr b" ..
    show "?R = Inr False \<longleftrightarrow> \<not> (\<exists>c\<in>set new. snd c = Inr True)"
      using t b by (cases b) simp_all
  qed
  have ex: "\<exists>new. calls (snd (raw_expression_tree_walker_impl True (Some node) (logging v) w)) = calls w @ new
      \<and> map fst new = take (length new) (walk_targets node)
      \<and> (\<forall>c\<in>set new. \<exists>s. snd c = fst (v (fst c) s))
      \<and> ((length new = length (walk_targets node) \<and> (\<forall>c\<in>set new. snd c = Inr False)
            \<and> ?R = (if walk_ok node then Inr False else Inl BadPointer))
         \<or> (new \<noteq> [] \<and> (\<forall>c\<in>set (butlast new). snd c = Inr False)
            \<and> snd (last new) \<noteq> Inr False \<and> ?R = snd (last new)))
      \<and> (?R = Inr True \<longleftrightarrow> (\<exists>c\<in>set new. snd c = Inr True))
      \<and> (?R = Inr True \<longrightarrow> new \<noteq> [] \<and> snd (last new) = Inr True)
      \<and> (?R = Inr False \<longleftrightarrow> walk_ok node \<and> length new = length (walk_targets node)
               \<and> (\<forall>c\<in>set new. snd c = Inr False))
      \<and> ((\<exists>b. ?R = Inr b) \<longrightarrow> (?R = Inr False \<longleftrightarrow> \<not> (\<exists>c\<in>set new. snd c = Inr True)))"
    apply (rule exI [of _ new])
    apply (intro conjI)
           apply (rule n1)
          apply (rule n2)
         apply (rule n3)
        apply (rule n4)
       apply (rule t)
      apply (rule t2)
     apply (rule f)
    apply (rule g)
    done
  have whole: "raw_expression_tree_walker_impl True (Some node) (walker_routine sp depth) x
                 = answered (walk_nodes sp ?D (walker_notice node x))"
    if "walk_depth node \<le> depth" "list_all walk_ok (node # ?D)" for sp x
    using that by (rule walker_routine_walk_nodes)
  have below: "raw_expression_tree_walker_impl True (Some node) (walker_routine special depth) s
          = answered (walk_nodes special ?D (walker_notice node s))
        \<and> fst (raw_expression_tree_walker_impl True (Some node)
                 (walker_routine (looking_for p) depth) f)
            = Inr (\<exists>n\<in>set ?D. p n)
        \<and> ctx (snd (raw_expression_tree_walker_impl True (Some node)
                 (walker_routine (looking_for p) depth) f))
            = ctx f @ takeWhile (\<lambda>n. \<not> p n) ?D @ take 1 (dropWhile (\<lambda>n. \<not> p n) ?D)"
    if h: "walk_depth node \<le> depth" "list_all walk_ok (node # ?D)"
  proof -
    have a: "raw_expression_tree_walker_impl True (Some node) (walker_routine special depth) s
          = answered (walk_nodes special ?D (walker_notice node s))"
      by (rule whole [OF h])
    have b: "fst (raw_expression_tree_walker_impl True (Some node)
                 (walker_routine (looking_for p) depth) f) = Inr (\<exists>n\<in>set ?D. p n)"
      unfolding whole [OF h] answered_def
      using walk_nodes_looking_for [of p ?D "walker_notice node f"] by simp
    have c: "ctx (snd (raw_expression_tree_walker_impl True (Some node)
                 (walker_routine (looking_for p) depth) f))
            = ctx f @ takeWhile (\<lambda>n. \<not> p n) ?D @ take 1 (dropWhile (\<lambda>n. \<not> p n) ?D)"
      unfolding whole [OF h] answered_def
      using walk_nodes_looking_for [of p ?D "walker_notice node f"]
      by (simp add: ctx_walker_notice)
    from a b c show ?thesis by (intro conjI)
  qed
  show ?thesis
    apply (intro conjI)
           apply (rule ex)
          apply (rule conjunct1 [OF logging_transparent])
         apply (rule conjunct2 [OF logging_transparent])
        apply (rule impI, rule below, erule conjunct1, erule conjunct2)
       apply (rule walk_nodes.simps)
      apply (rule walk_nodes.simps)
     apply (rule walk_targets_List)
    apply (rule walk_targets_SelectStmt)
    done
qed

theorem walker_stops_at_first_true_witness:
  "raw_expression_tree_walker_impl True
     (Some (List
          [Some (Node T_A_Expr 2
             [(''lexpr'', Some (Node T_A_Const 0 [])),
              (''rexpr'', Some (Node T_ColumnRef 4 []))]),
           Some (Node T_A_Const 9 [])]))
     (walker_routine (looking_for (\<lambda>n. nodeTag n = T_ColumnRef)) (Suc (Suc 0)))
     \<lparr>ctx = [], elog_out = []\<rparr>
   = (Inr True,
      \<lparr>ctx = [Node T_A_Expr 2
                 [(''lexpr'', Some (Node T_A_Const 0 [])),
                  (''rexpr'', Some (Node T_ColumnRef 4 []))],
               Node T_A_Const 0 [],
               Node T_ColumnRef 4 []],
       elog_out = []\<rparr>)"
proof -
  let ?k = "Node T_A_Const 0 []"
  let ?c = "Node T_ColumnRef 4 []"
  let ?e = "Node T_A_Expr 2 [(''lexpr'', Some ?k), (''rexpr'', Some ?c)]"
  let ?l = "Node T_A_Const 9 []"
  let ?T = "List [Some ?e, Some ?l]"
  have D: "descendants ?T = [?e, ?k, ?c, ?l]"
    by (simp add: descendants.simps walk_targets_List walk_targets_A_Expr
          walk_targets_ColumnRef walk_targets_A_Const)
  have d: "walk_depth ?T \<le> Suc (Suc 0)"
    by (simp add: walk_depth.simps walk_targets_List walk_targets_A_Expr
          walk_targets_ColumnRef walk_targets_A_Const)
  have ok: "list_all walk_ok (?T # descendants ?T)"
    unfolding D by (simp add: walk_ok_not_CaseExpr tag_defs)
  from walker_stops_at_first_true
    [of ?T _ _ "Suc (Suc 0)" "looking_for (\<lambda>n. nodeTag n = T_ColumnRef)"
        "\<lparr>ctx = [], elog_out = []\<rparr>",
     THEN conjunct2, THEN conjunct2, THEN conjunct2, THEN conjunct1, THEN mp, OF conjI,
     OF d ok, THEN conjunct1]
  show ?thesis
    unfolding D
    by (simp add: answered_def looking_for_def walker_notice_def
          walker_recognizes_examples [unfolded tag_defs] tag_defs del: walker_routine.simps)
qed

text \<open>
  C5 as stated fails for a callback that does not pass on what the walk below a
  node returned. \<open>swallow\<close> returns true on the ColumnRef, a node below the start
  node; the walker called on the A_Expr above it returns true to \<open>swallow\<close>, which
  returns false; the walk goes on to the next cell of the list, the A_Const, and
  returns false.
\<close>

theorem walker_swallowed_true_counterexample:
  "raw_expression_tree_walker_impl True
     (Some (List
          [Some (Node T_A_Expr 2
             [(''lexpr'', Some (Node T_A_Const 0 [])),
              (''rexpr'', Some (Node T_ColumnRef 4 []))]),
           Some (Node T_A_Const 9 [])]))
     (swallow (Suc (Suc 0))) \<lparr>ctx = [], elog_out = []\<rparr>
   = (Inr False,
      \<lparr>ctx = [(Node T_A_Const 0 [], False),
               (Node T_ColumnRef 4 [], True),
               (Node T_A_Expr 2
                 [(''lexpr'', Some (Node T_A_Const 0 [])),
                  (''rexpr'', Some (Node T_ColumnRef 4 []))], False),
               (Node T_A_Const 9 [], False)],
       elog_out = []\<rparr>)"
  by (simp add: walker_eval)

subsection \<open>Unrecognized kinds\<close>

text \<open>
  C4. On a node whose kind has no \<^verbatim>\<open>case\<close> in the walker (a DDL statement, for
  one), \<^verbatim>\<open>raw_expression_tree_walker_impl\<close>, past the stack guard, logs one diagnostic
  at the level
  \<^verbatim>\<open>NOTICE\<close> that names the tag, calls the callback on nothing (the callback and its
  context do not occur in the result) and returns false: it returns to its caller.
\<close>

theorem walker_unrecognized_kind_notice:
  "\<not> walker_recognizes (nodeTag node) \<Longrightarrow>
   raw_expression_tree_walker_impl True (Some node) walker w =
     (Inr False,
      w\<lparr>elog_out := elog_out w @ [(NOTICE, ''unrecognized node type: %d'', nodeTag node)]\<rparr>)"
  using switch_default [of node walker]
  by (simp add: impl_switch elog_def)

theorem walker_unrecognized_kind_notice_witness:
  "\<not> walker_recognizes (nodeTag (Node 200 3 [(''tableElts'', Some (List [Some (Node T_ColumnDef 13 [])]))]))
   \<and> raw_expression_tree_walker_impl True
       (Some (Node 200 3 [(''tableElts'', Some (List [Some (Node T_ColumnDef 13 [])]))]))
       (my_walker (Suc 0)) \<lparr>ctx = [], elog_out = []\<rparr>
     = (Inr False, \<lparr>ctx = [], elog_out = [(NOTICE, ''unrecognized node type: %d'', 200)]\<rparr>)"
proof -
  have h: "\<not> walker_recognizes
      (nodeTag (Node 200 3 [(''tableElts'', Some (List [Some (Node T_ColumnDef 13 [])]))]))"
    by (simp add: walker_recognizes_def walked_members_def tag_defs)
  show ?thesis
    using h walker_unrecognized_kind_notice [OF h, of "my_walker (Suc 0)" "\<lparr>ctx = [], elog_out = []\<rparr>"]
    by simp
qed

subsection \<open>ColumnRef and Alias\<close>

text \<open>
  C10. On a ColumnRef and on an Alias, \<^verbatim>\<open>raw_expression_tree_walker_impl\<close>, past the
  stack guard, returns false and leaves the world as it was, whatever the callback: it
  calls the
  callback on nothing, the \<^verbatim>\<open>fields\<close> of the ColumnRef and the \<^verbatim>\<open>colnames\<close> of the
  Alias included, and logs no diagnostic.
\<close>

theorem walker_ColumnRef_Alias_no_children:
  "nodeTag node = T_ColumnRef \<or> nodeTag node = T_Alias \<Longrightarrow>
   raw_expression_tree_walker_impl True (Some node) walker w = (Inr False, w)"
  by (elim disjE)
     (simp_all add: impl_switch raw_expression_tree_walker_switch_def tag_defs return_false_def)

theorem walker_ColumnRef_Alias_no_children_witness:
  "raw_expression_tree_walker_impl True
     (Some (Node T_ColumnRef 4
        [(''fields'', Some (List [Some (Node T_String 4 []), Some (Node T_String 6 [])]))]))
     (\<lambda>n w. (Inr True, w\<lparr>ctx := Suc (ctx w)\<rparr>)) \<lparr>ctx = 0, elog_out = []\<rparr>
     = (Inr False, \<lparr>ctx = 0, elog_out = []\<rparr>)
   \<and> raw_expression_tree_walker_impl True
     (Some (Node T_Alias 0 [(''colnames'', Some (List [Some (Node T_String 0 [])]))]))
     (\<lambda>n w. (Inr True, w\<lparr>ctx := Suc (ctx w)\<rparr>)) \<lparr>ctx = 0, elog_out = []\<rparr>
     = (Inr False, \<lparr>ctx = 0, elog_out = []\<rparr>)"
  using walker_ColumnRef_Alias_no_children
    [of "Node T_ColumnRef 4
        [(''fields'', Some (List [Some (Node T_String 4 []), Some (Node T_String 6 [])]))]"
        "\<lambda>n w. (Inr True, w\<lparr>ctx := Suc (ctx w)\<rparr>)" "\<lparr>ctx = 0, elog_out = []\<rparr>"]
    walker_ColumnRef_Alias_no_children
    [of "Node T_Alias 0 [(''colnames'', Some (List [Some (Node T_String 0 [])]))]"
        "\<lambda>n w. (Inr True, w\<lparr>ctx := Suc (ctx w)\<rparr>)" "\<lparr>ctx = 0, elog_out = []\<rparr>"]
  by simp

section \<open>Properties of the parse entry point\<close>

text \<open>
  C9. \<^verbatim>\<open>pg_query_raw_parse\<close> applied to the empty input returns the empty statement
  sequence (\<^verbatim>\<open>NIL\<close>, a list of no cells) and no error.
\<close>

theorem pg_query_raw_parse_empty_input:
  "tree (pg_query_raw_parse raw_parser [] parser_options) = None
   \<and> List_cells (tree (pg_query_raw_parse raw_parser [] parser_options)) = Some []
   \<and> error (pg_query_raw_parse raw_parser [] parser_options) = None"
  by (simp add: pg_query_raw_parse_def List_cells_def)

end
